theory Spec2Isabelle
  imports Complex_Main "HOL-Library.Word" "HOL-Library.Multiset"
begin

section \<open>Numbers and tuples of the Python code\<close>

text \<open>
  The Python floats (and numpy's float32 arrays) are modelled by \<^typ>\<open>real\<close>: the
  arithmetic below is the exact arithmetic that the floating-point operations round.
  Python's unbounded integers are \<^typ>\<open>int\<close>. A value that may be \<^verbatim>\<open>None\<close> is an
  \<^typ>\<open>'a option\<close>.
\<close>

type_synonym point = "real \<times> real"

type_synonym ipoint = "int \<times> int"

text \<open>\<^verbatim>\<open>((center_x, center_y), (width, height), angle)\<close>, the tuple of \<^verbatim>\<open>cv2.minAreaRect\<close>.\<close>

type_synonym RotatedRect = "(real \<times> real) \<times> (real \<times> real) \<times> real"

text \<open>Python's \<^verbatim>\<open>int(x)\<close> on a float, numpy's \<^verbatim>\<open>astype\<close> to an integer type: truncation
  towards zero.\<close>

definition py_int :: "real \<Rightarrow> int" where
  "py_int x = (if 0 \<le> x then \<lfloor>x\<rfloor> else \<lceil>x\<rceil>)"

text \<open>\<^verbatim>\<open>np.linalg.norm\<close> of a vector of two components.\<close>

definition linalg_norm :: "point \<Rightarrow> real" where
  "linalg_norm v = sqrt ((fst v)\<^sup>2 + (snd v)\<^sup>2)"

definition vsub :: "point \<Rightarrow> point \<Rightarrow> point" where
  "vsub p q = (fst p - fst q, snd p - snd q)"

definition vadd :: "point \<Rightarrow> point \<Rightarrow> point" where
  "vadd p q = (fst p + fst q, snd p + snd q)"

definition vscale :: "point \<Rightarrow> real \<Rightarrow> point" where
  "vscale p r = (fst p * r, snd p * r)"

text \<open>\<^verbatim>\<open>np.array(box_corners, dtype=np.float32)\<close>: the integer corners as floats.\<close>

definition as_float32 :: "ipoint list \<Rightarrow> point list" where
  "as_float32 cs = map (\<lambda>c. (real_of_int (fst c), real_of_int (snd c))) cs"

text \<open>\<^verbatim>\<open>np.arctan2(y, x)\<close> on finite arguments (no negative zero arises from the
  subtraction of two corners), and \<^verbatim>\<open>np.degrees\<close>.\<close>

definition arctan2 :: "real \<Rightarrow> real \<Rightarrow> real" where
  "arctan2 y x =
     (if 0 < x then arctan (y / x)
      else if x < 0 then (if 0 \<le> y then arctan (y / x) + pi else arctan (y / x) - pi)
      else if 0 < y then pi / 2
      else if y < 0 then - (pi / 2)
      else 0)"

definition degrees :: "real \<Rightarrow> real" where
  "degrees r = r * 180 / pi"

text \<open>Python's \<^verbatim>\<open>max(xs, key=k)\<close> on a non-empty sequence \<open>x, xs\<close>: the first element
  whose key is maximal.\<close>

definition py_max_key :: "('a \<Rightarrow> real) \<Rightarrow> 'a \<Rightarrow> 'a list \<Rightarrow> 'a" where
  "py_max_key k x xs = fold (\<lambda>y best. if k best < k y then y else best) xs x"

section \<open>The module \<^verbatim>\<open>orientation.py\<close>\<close>

text \<open>
  \<^verbatim>\<open>cv2.boxPoints\<close> belongs to the external image library, so the functions take it as
  the parameter \<open>boxPoints\<close>: a rectangle is mapped to its four corner points.
  \<^verbatim>\<open>np.int0\<close> truncates each coordinate to an integer.
\<close>

type_synonym box_points = "RotatedRect \<Rightarrow> point \<times> point \<times> point \<times> point"

definition int0 :: "point \<times> point \<times> point \<times> point \<Rightarrow> ipoint list" where
  "int0 box = (case box of (a, b, c, d) \<Rightarrow>
     map (\<lambda>p. (py_int (fst p), py_int (snd p))) [a, b, c, d])"

definition get_box_corners :: "box_points \<Rightarrow> RotatedRect option \<Rightarrow> ipoint list option" where
  "get_box_corners boxPoints rect =
     (case rect of
        None \<Rightarrow> None
      | Some r \<Rightarrow> Some (int0 (boxPoints r)))"

definition get_box_center :: "RotatedRect option \<Rightarrow> ipoint option" where
  "get_box_center rect =
     (case rect of
        None \<Rightarrow> None
      | Some ((cx, cy), _, _) \<Rightarrow> Some (py_int cx, py_int cy))"

text \<open>The loop \<^verbatim>\<open>for i in range(4)\<close> that collects \<^verbatim>\<open>(edge_vec, edge_length, i)\<close>.\<close>

definition edge_info :: "point list \<Rightarrow> nat \<Rightarrow> point \<times> real \<times> nat" where
  "edge_info corners i =
     (let edge_vec = vsub (corners ! ((i + 1) mod 4)) (corners ! i);
          edge_length = linalg_norm edge_vec
      in (edge_vec, edge_length, i))"

definition edges_of :: "point list \<Rightarrow> (point \<times> real \<times> nat) list" where
  "edges_of corners = map (edge_info corners) [0..<4]"

text \<open>The normalisation of the primary path: absolute value of a negative angle,
  \<open>180 - x\<close> above 90, then the clamp into \<open>[0, 90]\<close>.\<close>

definition normalize_primary :: "real \<Rightarrow> real" where
  "normalize_primary angle_deg0 =
     (let angle_deg = (if angle_deg0 < 0 then \<bar>angle_deg0\<bar> else angle_deg0);
          angle_deg = (if 90 < angle_deg then 180 - angle_deg else angle_deg)
      in max 0 (min 90 angle_deg))"

text \<open>The body of \<^verbatim>\<open>if box_corners is not None:\<close> in \<^verbatim>\<open>calculate_orientation\<close>.\<close>

definition orientation_primary :: "ipoint list \<Rightarrow> real" where
  "orientation_primary box_corners =
     (let corners = as_float32 box_corners;
          edges = edges_of corners;
          longest_edge_info = py_max_key (\<lambda>x. fst (snd x)) (hd edges) (tl edges);
          longest_edge = fst longest_edge_info;
          angle_rad = arctan2 (snd longest_edge) (fst longest_edge);
          angle_deg = degrees angle_rad
      in normalize_primary angle_deg)"

text \<open>The fallback after the \<^verbatim>\<open>if\<close>: the raw angle of \<^verbatim>\<open>minAreaRect\<close>.\<close>

definition orientation_fallback :: "real \<Rightarrow> real" where
  "orientation_fallback min_area_angle =
     (let normalized_angle = \<bar>min_area_angle\<bar>
      in if 90 < normalized_angle then 90 - (normalized_angle - 90) else normalized_angle)"

definition calculate_orientation :: "box_points \<Rightarrow> RotatedRect option \<Rightarrow> real option" where
  "calculate_orientation boxPoints rect =
     (case rect of
        None \<Rightarrow> None
      | Some ((cx, cy), (width, height), min_area_angle) \<Rightarrow>
          (case get_box_corners boxPoints rect of
             Some box_corners \<Rightarrow> Some (orientation_primary box_corners)
           | None \<Rightarrow> Some (orientation_fallback min_area_angle)))"

section \<open>The module \<^verbatim>\<open>sticker_position.py\<close>\<close>

text \<open>\<^verbatim>\<open>np.linspace(start, stop, num)\<close> with the end point included: \<open>num\<close> values
  \<open>start + i * step\<close>, the last one set to \<open>stop\<close>.\<close>

definition linspace :: "real \<Rightarrow> real \<Rightarrow> nat \<Rightarrow> real list" where
  "linspace start stop num =
     (let dv = num - 1;
          delta = stop - start;
          y = map (\<lambda>i. if 0 < dv then real i * (delta / real dv) + start
                         else real i * delta + start) [0..<num]
      in if 1 < num then y[num - 1 := stop] else y)"

text \<open>\<^verbatim>\<open>np.argmin\<close>: the index of the first occurrence of the minimum. numpy raises
  on an empty array; the array of corner ordinates always has four entries.\<close>

fun argmin_from :: "real \<Rightarrow> nat \<Rightarrow> nat \<Rightarrow> real list \<Rightarrow> nat" where
  "argmin_from best bi i [] = bi"
| "argmin_from best bi i (x # xs) =
     (if x < best then argmin_from x i (Suc i) xs else argmin_from best bi (Suc i) xs)"

definition argmin :: "real list \<Rightarrow> nat" where
  "argmin xs = (case xs of [] \<Rightarrow> 0 | x # rest \<Rightarrow> argmin_from x 0 1 rest)"

text \<open>
  \<^verbatim>\<open>cv2.pointPolygonTest(box_corners, candidate_pt, True)\<close> is external as well: the
  parameter \<open>pointPolygonTest\<close> maps the polygon and a pixel to the signed distance.
\<close>

type_synonym polygon_test = "ipoint list \<Rightarrow> ipoint \<Rightarrow> real"

text \<open>The direction from the (truncated) centre to the corner of minimal \<open>y\<close>.\<close>

definition top_corner_of :: "ipoint list \<Rightarrow> point" where
  "top_corner_of box_corners =
     (let corners = as_float32 box_corners;
          top_corner_idx = argmin (map snd corners)
      in corners ! top_corner_idx)"

definition direction_of :: "ipoint list \<Rightarrow> ipoint \<Rightarrow> point" where
  "direction_of box_corners c =
     vsub (top_corner_of box_corners) (real_of_int (fst c), real_of_int (snd c))"

text \<open>One candidate of the loop: \<^verbatim>\<open>center_pt + direction * offset_ratio\<close>, truncated to
  a pixel.\<close>

definition candidate_pt :: "point \<Rightarrow> point \<Rightarrow> real \<Rightarrow> ipoint" where
  "candidate_pt center_pt direction offset_ratio =
     (let offset_vec = vscale direction offset_ratio;
          candidate = vadd center_pt offset_vec
      in (py_int (fst candidate), py_int (snd candidate)))"

text \<open>The loop \<^verbatim>\<open>for offset_ratio in np.linspace(offset_percent, 0.05, 30)\<close> and the
  \<^verbatim>\<open>return (int(cx), int(cy))\<close> after it.\<close>

fun search_offsets ::
  "polygon_test \<Rightarrow> ipoint list \<Rightarrow> point \<Rightarrow> point \<Rightarrow> ipoint \<Rightarrow> real list \<Rightarrow> ipoint" where
  "search_offsets pointPolygonTest box_corners center_pt direction c [] = c"
| "search_offsets pointPolygonTest box_corners center_pt direction c (offset_ratio # rest) =
     (let cand = candidate_pt center_pt direction offset_ratio;
          test_result = pointPolygonTest box_corners cand
      in if 0 \<le> test_result then cand
         else search_offsets pointPolygonTest box_corners center_pt direction c rest)"

definition calculate_sticker_position ::
  "box_points \<Rightarrow> polygon_test \<Rightarrow> RotatedRect option \<Rightarrow> real \<Rightarrow> ipoint option" where
  "calculate_sticker_position boxPoints pointPolygonTest rect offset_percent =
     (case rect of
        None \<Rightarrow> None
      | Some r \<Rightarrow>
          (case get_box_center rect of
             None \<Rightarrow> None
           | Some c \<Rightarrow>
               (case get_box_corners boxPoints rect of
                  None \<Rightarrow> None
                | Some box_corners \<Rightarrow>
                    (let center_pt = (real_of_int (fst c), real_of_int (snd c));
                         direction = direction_of box_corners c;
                         direction_length = linalg_norm direction
                     in if direction_length < 1 then Some c
                        else Some (search_offsets pointPolygonTest box_corners center_pt
                                     direction c (linspace offset_percent 0.05 30))))))"

definition calculate_sticker_position_on_face ::
  "RotatedRect option \<Rightarrow> string \<Rightarrow> real \<Rightarrow> ipoint option" where
  "calculate_sticker_position_on_face rect face offset_percent =
     (case rect of
        None \<Rightarrow> None
      | Some r \<Rightarrow>
          (case get_box_center rect of
             None \<Rightarrow> None
           | Some (cx, cy) \<Rightarrow>
               (case r of (_, (width, height), angle) \<Rightarrow>
                  (let offset = py_int (max width height * offset_percent)
                   in if face = ''top'' then Some (cx, cy - offset)
                      else if face = ''bottom'' then Some (cx, cy + offset)
                      else if face = ''left'' then Some (cx - offset, cy)
                      else if face = ''right'' then Some (cx + offset, cy)
                      else Some (cx, cy - offset)))))"

section \<open>The module \<^verbatim>\<open>detect_box.py\<close>\<close>

text \<open>
  \<^verbatim>\<open>sorted(contours, key=cv2.contourArea, reverse=True)\<close>: Python's sort is stable, and
  with \<^verbatim>\<open>reverse=True\<close> elements of equal key keep their order; that is the stable
  ascending sort on the negated key.
\<close>

definition py_sorted_reverse :: "('a \<Rightarrow> real) \<Rightarrow> 'a list \<Rightarrow> 'a list" where
  "py_sorted_reverse k xs = sort_key (\<lambda>x. - k x) xs"

text \<open>
  The contour primitives of the image library are parameters: \<open>contourArea\<close>,
  \<open>arcLength\<close> (closed), \<open>approxPolyDP\<close> (closed) and, in \<open>find_box_contour\<close>,
  \<open>findContours\<close> (external contours of the edge map). A contour is a sequence of
  integer points.
\<close>

type_synonym contour = "ipoint list"

text \<open>The loop \<^verbatim>\<open>for contour in contours\<close>; \<open>None\<close> when it ends without \<^verbatim>\<open>return\<close>.\<close>

fun first_rectangular ::
  "(contour \<Rightarrow> real) \<Rightarrow> (contour \<Rightarrow> real) \<Rightarrow> (contour \<Rightarrow> real \<Rightarrow> ipoint list) \<Rightarrow>
   contour list \<Rightarrow> contour option" where
  "first_rectangular contourArea arcLength approxPolyDP [] = None"
| "first_rectangular contourArea arcLength approxPolyDP (contour # rest) =
     (let peri = arcLength contour;
          approx = approxPolyDP contour (0.02 * peri)
      in if length approx = 4 then
           (let area = contourArea contour
            in if 1000 < area then Some contour
               else first_rectangular contourArea arcLength approxPolyDP rest)
         else first_rectangular contourArea arcLength approxPolyDP rest)"

definition find_box_contour ::
  "('e \<Rightarrow> contour list) \<Rightarrow> (contour \<Rightarrow> real) \<Rightarrow> (contour \<Rightarrow> real) \<Rightarrow>
   (contour \<Rightarrow> real \<Rightarrow> ipoint list) \<Rightarrow> 'e \<Rightarrow> contour option" where
  "find_box_contour findContours contourArea arcLength approxPolyDP edges =
     (let contours = findContours edges
      in if contours = [] then None
         else
           (let contours = py_sorted_reverse contourArea contours
            in case first_rectangular contourArea arcLength approxPolyDP contours of
                 Some contour \<Rightarrow> Some contour
               | None \<Rightarrow> (if contours \<noteq> [] then Some (contours ! 0) else None)))"

section \<open>The compositing stage of \<^verbatim>\<open>process_image.py\<close>\<close>

text \<open>
  A numpy image of shape \<open>(height, width, channels)\<close> is a record of its shape and its
  rows of pixels; a pixel of the \<^verbatim>\<open>uint8\<close> canvas read by \<^verbatim>\<open>cv2.imread\<close> is a triple
  of bytes (blue, green, red), a pixel of a decal with alpha channel has four bytes.
\<close>

type_synonym byte = "8 word"

type_synonym bgr = "byte \<times> byte \<times> byte"

type_synonym bgra = "byte \<times> byte \<times> byte \<times> byte"

record 'p raster =
  height :: nat
  width :: nat
  rows :: "'p list list"

text \<open>numpy arrays are rectangular.\<close>

definition wf_raster :: "'p raster \<Rightarrow> bool" where
  "wf_raster r = (length (rows r) = height r \<and> list_all (\<lambda>row. length row = width r) (rows r))"

text \<open>\<^verbatim>\<open>sticker.shape[2]\<close> is 4 for a decal with alpha channel, 3 without.\<close>

datatype decal = Bgr "bgr raster" | Bgra "bgra raster"

datatype error = ValueError

text \<open>The bounds of the Python slice \<^verbatim>\<open>[a:b]\<close> on a sequence of length \<open>n\<close>: a negative
  index counts from the end, and both are clipped to \<open>[0, n]\<close>.\<close>

definition slice_lo :: "int \<Rightarrow> nat \<Rightarrow> nat" where
  "slice_lo a n = nat (if a < 0 then max 0 (a + int n) else min a (int n))"

definition slice_hi :: "int \<Rightarrow> int \<Rightarrow> nat \<Rightarrow> nat" where
  "slice_hi a b n = max (slice_lo a n) (slice_lo b n)"

definition py_slice :: "int \<Rightarrow> int \<Rightarrow> 'a list \<Rightarrow> 'a list" where
  "py_slice a b xs =
     (let lo = slice_lo a (length xs); hi = slice_hi a b (length xs)
      in take (hi - lo) (drop lo xs))"

text \<open>\<^verbatim>\<open>image[ya:yb, xa:xb]\<close>.\<close>

definition slice2 :: "'p raster \<Rightarrow> int \<Rightarrow> int \<Rightarrow> int \<Rightarrow> int \<Rightarrow> 'p raster" where
  "slice2 r ya yb xa xb =
     \<lparr>height = slice_hi ya yb (height r) - slice_lo ya (height r),
      width = slice_hi xa xb (width r) - slice_lo xa (width r),
      rows = map (py_slice xa xb) (py_slice ya yb (rows r))\<rparr>"

text \<open>\<^verbatim>\<open>image[ya:yb, xa:xb] = roi\<close>. The shapes of the region and of \<open>roi\<close> are equal in
  every call below (lemma \<open>roi_pixels\<close>), so numpy's broadcasting of dimensions of
  size one never applies; other shapes raise \<^verbatim>\<open>ValueError\<close>.\<close>

definition assign2 ::
  "'p raster \<Rightarrow> int \<Rightarrow> int \<Rightarrow> int \<Rightarrow> int \<Rightarrow> 'p raster \<Rightarrow> error + 'p raster" where
  "assign2 img ya yb xa xb roi =
     (let ylo = slice_lo ya (height img); yhi = slice_hi ya yb (height img);
          xlo = slice_lo xa (width img); xhi = slice_hi xa xb (width img)
      in if height roi = yhi - ylo \<and> width roi = xhi - xlo then
           Inr (img\<lparr>rows :=
             map (\<lambda>y. if ylo \<le> y \<and> y < yhi then
                        map (\<lambda>x. if xlo \<le> x \<and> x < xhi
                                  then rows roi ! (y - ylo) ! (x - xlo)
                                  else rows img ! y ! x)
                          [0..<length (rows img ! y)]
                      else rows img ! y)
               [0..<length (rows img)]\<rparr>)
         else Inl ValueError)"

text \<open>\<^verbatim>\<open>.astype(np.uint8)\<close> on a float: truncation (the blended values lie in
  \<open>[0, 255]\<close>).\<close>

definition to_uint8 :: "real \<Rightarrow> byte" where
  "to_uint8 v = word_of_int (py_int v)"

definition as_float :: "byte \<Rightarrow> real" where
  "as_float b = real (unat b)"

text \<open>One pixel of \<^verbatim>\<open>roi_float * (1 - alpha) + sticker_rgb * alpha\<close> with
  \<^verbatim>\<open>alpha = sticker_roi[:, :, 3:4] / 255.0\<close>, converted back to \<^verbatim>\<open>uint8\<close>.\<close>

definition blend_pixel :: "bgr \<Rightarrow> bgra \<Rightarrow> bgr" where
  "blend_pixel bg fg =
     (case bg of (b, g, r) \<Rightarrow> case fg of (sb, sg, sr, sa) \<Rightarrow>
        (let alpha = as_float sa / 255
         in (to_uint8 (as_float b * (1 - alpha) + as_float sb * alpha),
             to_uint8 (as_float g * (1 - alpha) + as_float sg * alpha),
             to_uint8 (as_float r * (1 - alpha) + as_float sr * alpha))))"

definition alpha_blend :: "bgr raster \<Rightarrow> bgra raster \<Rightarrow> error + bgr raster" where
  "alpha_blend roi sticker_roi =
     (if height roi = height sticker_roi \<and> width roi = width sticker_roi then
        Inr \<lparr>height = height roi, width = width roi,
             rows = map2 (map2 blend_pixel) (rows roi) (rows sticker_roi)\<rparr>
      else Inl ValueError)"

text \<open>
  \<^verbatim>\<open>overlay_sticker_image\<close> from \<^verbatim>\<open>sh, sw = sticker.shape[:2]\<close> on. The argument
  \<open>sticker\<close> is the decal as the external library delivers it to that point (read from
  the file, resized and rotated); the marker drawn for a missing or unreadable file is
  not part of this model. The canvas is updated in place in Python; here the new canvas
  is returned.
\<close>

definition overlay_sticker_image ::
  "bgr raster \<Rightarrow> decal \<Rightarrow> ipoint option \<Rightarrow> error + bgr raster" where
  "overlay_sticker_image img sticker position =
     (case position of
        None \<Rightarrow> Inr img
      | Some (sx, sy) \<Rightarrow>
          (let sh = int (case sticker of Bgr s \<Rightarrow> height s | Bgra s \<Rightarrow> height s);
               sw = int (case sticker of Bgr s \<Rightarrow> width s | Bgra s \<Rightarrow> width s);
               x1 = sx - sw div 2;
               y1 = sy - sh div 2;
               x2 = x1 + sw;
               y2 = y1 + sh;
               img_h = int (height img);
               img_w = int (width img);
               clip_x1 = max 0 (- x1);
               clip_y1 = max 0 (- y1)
           in if x2 < 0 \<or> y2 < 0 \<or> img_w \<le> x1 \<or> img_h \<le> y1 then Inr img
              else
                (let roi_x1 = max 0 x1;
                     roi_y1 = max 0 y1;
                     roi_x2 = min img_w x2;
                     roi_y2 = min img_h y2;
                     roi = slice2 img roi_y1 roi_y2 roi_x1 roi_x2;
                     sticker_x1 = clip_x1;
                     sticker_y1 = clip_y1;
                     sticker_x2 = sticker_x1 + (roi_x2 - roi_x1);
                     sticker_y2 = sticker_y1 + (roi_y2 - roi_y1)
                 in case sticker of
                      Bgra s \<Rightarrow>
                        (case alpha_blend roi
                                (slice2 s sticker_y1 sticker_y2 sticker_x1 sticker_x2) of
                           Inl e \<Rightarrow> Inl e
                         | Inr blended \<Rightarrow> assign2 img roi_y1 roi_y2 roi_x1 roi_x2 blended)
                    | Bgr s \<Rightarrow>
                        assign2 img roi_y1 roi_y2 roi_x1 roi_x2
                          (slice2 s sticker_y1 sticker_y2 sticker_x1 sticker_x2))))"

text \<open>The colour channels \<^verbatim>\<open>[:, :, :3]\<close> and the alpha channel \<^verbatim>\<open>[:, :, 3:4]\<close> of a pixel
  with four channels, and a decal whose alpha channel has one value everywhere.\<close>

definition rgb_of :: "bgra \<Rightarrow> bgr" where
  "rgb_of p = (case p of (b, g, r, a) \<Rightarrow> (b, g, r))"

definition alpha_of :: "bgra \<Rightarrow> byte" where
  "alpha_of p = (case p of (b, g, r, a) \<Rightarrow> a)"

definition uniform_alpha :: "byte \<Rightarrow> bgra raster \<Rightarrow> bool" where
  "uniform_alpha a s = list_all (list_all (\<lambda>p. alpha_of p = a)) (rows s)"

definition wf_decal :: "decal \<Rightarrow> bool" where
  "wf_decal sticker = (case sticker of Bgr s \<Rightarrow> wf_raster s | Bgra s \<Rightarrow> wf_raster s)"

text \<open>The placement rectangle \<^verbatim>\<open>(x1, y1, x2, y2)\<close> of a decal centred at a position, and
  the canvas pixels \<open>(x, y)\<close> it covers.\<close>

definition placement_rect :: "decal \<Rightarrow> ipoint \<Rightarrow> int \<times> int \<times> int \<times> int" where
  "placement_rect sticker position =
     (case position of (sx, sy) \<Rightarrow>
        (let sh = int (case sticker of Bgr s \<Rightarrow> height s | Bgra s \<Rightarrow> height s);
             sw = int (case sticker of Bgr s \<Rightarrow> width s | Bgra s \<Rightarrow> width s);
             x1 = sx - sw div 2;
             y1 = sy - sh div 2;
             x2 = x1 + sw;
             y2 = y1 + sh
         in (x1, y1, x2, y2)))"

definition covers :: "decal \<Rightarrow> ipoint \<Rightarrow> nat \<Rightarrow> nat \<Rightarrow> bool" where
  "covers sticker position x y =
     (case placement_rect sticker position of (x1, y1, x2, y2) \<Rightarrow>
        x1 \<le> int x \<and> int x < x2 \<and> y1 \<le> int y \<and> int y < y2)"

section \<open>Instances of the external primitives\<close>

text \<open>
  Modelled from the spec: the external primitive "corner extraction from a rotated
  rectangle" (\<^verbatim>\<open>cv2.boxPoints\<close>) is not part of the repository. This instance gives
  the four corners of the rectangle turned by its raw angle about its centre, in
  cyclic order; for the angle 0 they are bottom-left, top-left, top-right,
  bottom-right in image coordinates. It serves to instantiate the parameter
  \<open>boxPoints\<close> at concrete rectangles.
\<close>

definition cv2_boxPoints :: box_points where
  "cv2_boxPoints rect =
     (case rect of ((cx, cy), (w, h), angle) \<Rightarrow>
        (let b = cos (angle * pi / 180) * 0.5;
             a = sin (angle * pi / 180) * 0.5;
             p0 = (cx - a * h - b * w, cy + b * h - a * w);
             p1 = (cx + a * h - b * w, cy - b * h - a * w);
             p2 = (2 * cx - fst p0, 2 * cy - snd p0);
             p3 = (2 * cx - fst p1, 2 * cy - snd p1)
         in (p0, p1, p2, p3)))"

text \<open>The corners of an axis-aligned rectangle, and the eight ways of listing four
  corners cyclically (any start, either direction).\<close>

definition axis_aligned_corners :: "RotatedRect \<Rightarrow> point \<times> point \<times> point \<times> point" where
  "axis_aligned_corners rect =
     (case rect of ((cx, cy), (w, h), angle) \<Rightarrow>
        ((cx - w / 2, cy + h / 2), (cx - w / 2, cy - h / 2),
         (cx + w / 2, cy - h / 2), (cx + w / 2, cy + h / 2)))"

definition cyclic_orders :: "'a \<times> 'a \<times> 'a \<times> 'a \<Rightarrow> ('a \<times> 'a \<times> 'a \<times> 'a) list" where
  "cyclic_orders q =
     (case q of (a, b, c, d) \<Rightarrow>
        [(a, b, c, d), (b, c, d, a), (c, d, a, b), (d, a, b, c),
         (d, c, b, a), (c, b, a, d), (b, a, d, c), (a, d, c, b)])"

text \<open>
  Modelled from the spec: the external "signed point-in-polygon distance" (positive
  strictly inside, zero on the boundary, negative outside), here for a polygon that is
  an axis-aligned box: the least of the four signed distances to its sides. Inside the
  box that is the distance to the boundary.
\<close>

definition axis_aligned_test :: polygon_test where
  "axis_aligned_test poly pt =
     (let xs = map fst poly; ys = map snd poly
      in real_of_int (min (min (fst pt - Min (set xs)) (Max (set xs) - fst pt))
                          (min (snd pt - Min (set ys)) (Max (set ys) - snd pt))))"

section \<open>Properties of the orientation estimate\<close>

lemma normalize_primary_range: "0 \<le> normalize_primary a \<and> normalize_primary a \<le> 90"
  by (simp add: normalize_primary_def Let_def)

lemma calculate_orientation_Some:
  "calculate_orientation bp (Some r) = Some (orientation_primary (int0 (bp r)))"
  by (cases r) (auto simp: calculate_orientation_def get_box_corners_def)

text \<open>
  Claim C2. For every rectangle that is not \<^verbatim>\<open>None\<close>, whatever its raw angle and whatever
  corners the library reports, \<^verbatim>\<open>calculate_orientation\<close> returns an angle, and that angle
  lies in \<open>[0, 90]\<close>.
\<close>

theorem calculate_orientation_range:
  "\<exists>a. calculate_orientation bp (Some r) = Some a \<and> 0 \<le> a \<and> a \<le> 90"
  by (simp add: calculate_orientation_Some orientation_primary_def Let_def
      normalize_primary_range)

text \<open>
  Claim C9. \<^verbatim>\<open>get_box_corners\<close> returns \<^verbatim>\<open>None\<close> only for the argument \<^verbatim>\<open>None\<close>, and for
  every rectangle that is not \<^verbatim>\<open>None\<close> \<^verbatim>\<open>calculate_orientation\<close> returns the result of the
  corner-based primary path; the raw-angle fallback is never the result.
\<close>

theorem calculate_orientation_primary_path:
  "(get_box_corners bp rect = None) = (rect = None) \<and>
   get_box_corners bp (Some r) = Some (int0 (bp r)) \<and>
   calculate_orientation bp (Some r) = Some (orientation_primary (int0 (bp r)))"
  by (cases r) (auto simp: calculate_orientation_def get_box_corners_def split: option.splits)

lemma py_int_bounds: "x - 1 < real_of_int (py_int x)" "real_of_int (py_int x) < x + 1"
  unfolding py_int_def by (simp_all; linarith)+

lemma py_int_of_int [simp]: "py_int (real_of_int n) = n"
  by (simp add: py_int_def)

lemma py_int_numeral [simp]: "py_int (numeral n) = numeral n" "py_int 0 = 0" "py_int 1 = 1"
  by (simp_all add: py_int_def)

lemma upt_4: "[0..<4] = [0, 1, 2, 3]"
  by (simp add: upt_rec)

lemma linalg_norm_axis [simp]:
  "linalg_norm (x, 0) = \<bar>x\<bar>" "linalg_norm (0, y) = \<bar>y\<bar>"
  by (simp_all add: linalg_norm_def)

lemma angle_horizontal: "x \<noteq> 0 \<Longrightarrow> normalize_primary (degrees (arctan2 0 x)) = 0"
  by (auto simp: normalize_primary_def degrees_def arctan2_def Let_def)

lemma angle_vertical: "y \<noteq> 0 \<Longrightarrow> normalize_primary (degrees (arctan2 y 0)) = 90"
  by (auto simp: normalize_primary_def degrees_def arctan2_def Let_def)

lemma orientation_primary_4:
  "orientation_primary [p0, p1, p2, p3] =
     (let c0 = (real_of_int (fst p0), real_of_int (snd p0));
          c1 = (real_of_int (fst p1), real_of_int (snd p1));
          c2 = (real_of_int (fst p2), real_of_int (snd p2));
          c3 = (real_of_int (fst p3), real_of_int (snd p3));
          e0 = vsub c1 c0; e1 = vsub c2 c1; e2 = vsub c3 c2; e3 = vsub c0 c3;
          b1 = (if linalg_norm e0 < linalg_norm e1 then e1 else e0);
          b2 = (if linalg_norm b1 < linalg_norm e2 then e2 else b1);
          b3 = (if linalg_norm b2 < linalg_norm e3 then e3 else b2)
      in normalize_primary (degrees (arctan2 (snd b3) (fst b3))))"
  by (simp add: orientation_primary_def as_float32_def edges_of_def upt_4 edge_info_def
      py_max_key_def Let_def)

lemma wide_box:
  fixes X1 X2 Y1 Y2 :: int
  assumes "\<bar>Y2 - Y1\<bar> < \<bar>X2 - X1\<bar>"
    and "q \<in> set (cyclic_orders ((X1, Y2), (X1, Y1), (X2, Y1), (X2, Y2)))"
  shows "orientation_primary (case q of (a, b, c, d) \<Rightarrow> [a, b, c, d]) = 0"
  using assms
  by (auto simp: cyclic_orders_def orientation_primary_4 vsub_def Let_def angle_horizontal)

lemma tall_box:
  fixes X1 X2 Y1 Y2 :: int
  assumes "\<bar>X2 - X1\<bar> < \<bar>Y2 - Y1\<bar>"
    and "q \<in> set (cyclic_orders ((X1, Y2), (X1, Y1), (X2, Y1), (X2, Y2)))"
  shows "orientation_primary (case q of (a, b, c, d) \<Rightarrow> [a, b, c, d]) = 90"
  using assms
  by (auto simp: cyclic_orders_def orientation_primary_4 vsub_def Let_def angle_vertical)


lemma int0_cyclic:
  assumes "q \<in> set (cyclic_orders (a, b, c, d))"
  shows "\<exists>q'\<in>set (cyclic_orders ((py_int (fst a), py_int (snd a)), (py_int (fst b), py_int (snd b)),
            (py_int (fst c), py_int (snd c)), (py_int (fst d), py_int (snd d)))).
           int0 q = (case q' of (a', b', c', d') \<Rightarrow> [a', b', c', d'])"
  using assms by (auto simp: cyclic_orders_def int0_def)

lemma py_int_diff_lower:
  assumes "y - x \<ge> real_of_int n + 2"
  shows "n < py_int y - py_int x"
proof -
  have "real_of_int (py_int y - py_int x) > real_of_int n"
    using py_int_bounds(1) [of y] py_int_bounds(2) [of x] assms by simp
  then show ?thesis by linarith
qed

lemma py_int_diff_upper:
  assumes "\<bar>y - x\<bar> \<le> real_of_int n - 2"
  shows "\<bar>py_int y - py_int x\<bar> < n"
proof -
  have "\<bar>real_of_int (py_int y - py_int x)\<bar> < real_of_int n"
    using py_int_bounds [of y] py_int_bounds [of x] assms by (simp add: abs_less_iff) linarith
  then show ?thesis by linarith
qed

lemma axis_aligned_orientation:
  assumes bp: "bp ((cx, cy), (w, h), a) \<in> set (cyclic_orders (axis_aligned_corners ((cx, cy), (w, h), a)))"
  shows "\<bar>py_int (cy + h / 2) - py_int (cy - h / 2)\<bar> < \<bar>py_int (cx + w / 2) - py_int (cx - w / 2)\<bar>
           \<Longrightarrow> calculate_orientation bp (Some ((cx, cy), (w, h), a)) = Some 0"
    and "\<bar>py_int (cx + w / 2) - py_int (cx - w / 2)\<bar> < \<bar>py_int (cy + h / 2) - py_int (cy - h / 2)\<bar>
           \<Longrightarrow> calculate_orientation bp (Some ((cx, cy), (w, h), a)) = Some 90"
proof -
  let ?r = "((cx, cy), (w, h), a)"
  from int0_cyclic [OF bp [unfolded axis_aligned_corners_def prod.case]]
  obtain q' where q': "q' \<in> set (cyclic_orders ((py_int (cx - w / 2), py_int (cy + h / 2)),
        (py_int (cx - w / 2), py_int (cy - h / 2)), (py_int (cx + w / 2), py_int (cy - h / 2)),
        (py_int (cx + w / 2), py_int (cy + h / 2))))"
    and i0: "int0 (bp ?r) = (case q' of (a', b', c', d') \<Rightarrow> [a', b', c', d'])"
    by auto
  show "\<bar>py_int (cy + h / 2) - py_int (cy - h / 2)\<bar> < \<bar>py_int (cx + w / 2) - py_int (cx - w / 2)\<bar>
           \<Longrightarrow> calculate_orientation bp (Some ?r) = Some 0"
    using wide_box [OF _ q'] by (simp add: calculate_orientation_Some i0)
  show "\<bar>py_int (cx + w / 2) - py_int (cx - w / 2)\<bar> < \<bar>py_int (cy + h / 2) - py_int (cy - h / 2)\<bar>
           \<Longrightarrow> calculate_orientation bp (Some ?r) = Some 90"
    using tall_box [OF _ q'] by (simp add: calculate_orientation_Some i0)
qed

lemma cv2_boxPoints_axis:
  "cv2_boxPoints ((cx, cy), (w, h), 0) = axis_aligned_corners ((cx, cy), (w, h), 0)"
  by (simp add: cv2_boxPoints_def axis_aligned_corners_def Let_def)

lemma cyclic_orders_self: "q \<in> set (cyclic_orders q)"
  by (cases q) (simp add: cyclic_orders_def)

text \<open>
  Claim C6. For an axis-aligned rectangle with raw angle 0 (the library reports its
  four corners in some cyclic order), \<^verbatim>\<open>calculate_orientation\<close> returns 0 for width 100
  and height 50, and 90 for width 50 and height 100, wherever the centre lies.
\<close>

theorem axis_aligned_examples:
  "(bp ((cx, cy), (100, 50), 0) \<in> set (cyclic_orders (axis_aligned_corners ((cx, cy), (100, 50), 0)))
      \<longrightarrow> calculate_orientation bp (Some ((cx, cy), (100, 50), 0)) = Some 0) \<and>
   (bp ((cx, cy), (50, 100), 0) \<in> set (cyclic_orders (axis_aligned_corners ((cx, cy), (50, 100), 0)))
      \<longrightarrow> calculate_orientation bp (Some ((cx, cy), (50, 100), 0)) = Some 90)"
proof (intro conjI impI)
  assume bp: "bp ((cx, cy), (100, 50), 0) \<in> set (cyclic_orders (axis_aligned_corners ((cx, cy), (100, 50), 0)))"
  have "99 \<le> py_int (cx + 100 / 2) - py_int (cx - 100 / 2)"
    using py_int_diff_lower [of 98 "cx + 100 / 2" "cx - 100 / 2"] by simp
  moreover have "\<bar>py_int (cy + 50 / 2) - py_int (cy - 50 / 2)\<bar> < 52"
    using py_int_diff_upper [of "cy + 50 / 2" "cy - 50 / 2" 52] by simp
  ultimately show "calculate_orientation bp (Some ((cx, cy), (100, 50), 0)) = Some 0"
    using axis_aligned_orientation(1) [of bp cx cy 100 50 0, OF bp] by linarith
next
  assume bp: "bp ((cx, cy), (50, 100), 0) \<in> set (cyclic_orders (axis_aligned_corners ((cx, cy), (50, 100), 0)))"
  have "99 \<le> py_int (cy + 100 / 2) - py_int (cy - 100 / 2)"
    using py_int_diff_lower [of 98 "cy + 100 / 2" "cy - 100 / 2"] by simp
  moreover have "\<bar>py_int (cx + 50 / 2) - py_int (cx - 50 / 2)\<bar> < 52"
    using py_int_diff_upper [of "cx + 50 / 2" "cx - 50 / 2" 52] by simp
  ultimately show "calculate_orientation bp (Some ((cx, cy), (50, 100), 0)) = Some 90"
    using axis_aligned_orientation(2) [of bp cx cy 50 100 0, OF bp] by linarith
qed

theorem axis_aligned_examples_witness:
  "calculate_orientation cv2_boxPoints (Some ((100, 100), (100, 50), 0)) = Some 0 \<and>
   calculate_orientation cv2_boxPoints (Some ((100, 100), (50, 100), 0)) = Some 90"
  using axis_aligned_examples [of cv2_boxPoints 100 100]
  by (simp add: cv2_boxPoints_axis cyclic_orders_self)

text \<open>
  Claim C3. The primary path and the raw-angle fallback are different functions of the
  rectangle. Whatever corners the library reports, some rectangle gets different angles
  from the two: with raw angle 200 the fallback yields \<open>-20\<close>, the primary path a value
  in \<open>[0, 90]\<close> (its normalisation maps 200 to 0). And for the upright box of width 50
  and height 100 with raw angle 0 (corners reported in some cyclic order) the primary
  path yields 90 where the fallback formula yields 0.
\<close>

theorem formulas_differ:
  "(\<exists>r. orientation_primary (int0 ((bp :: box_points) r)) \<noteq> orientation_fallback (snd (snd r))) \<and>
   (bp ((100, 100), (50, 100), 0)
      \<in> set (cyclic_orders (axis_aligned_corners ((100, 100), (50, 100), 0))) \<longrightarrow>
    orientation_primary (int0 (bp ((100, 100), (50, 100), 0))) = 90 \<and>
    orientation_fallback (snd (snd ((100 :: real, 100 :: real), (50 :: real, 100 :: real), 0))) = 0) \<and>
   normalize_primary 200 = 0 \<and> orientation_fallback 200 = - 20"
proof -
  have "0 \<le> orientation_primary (int0 (bp ((0, 0), (1, 1), 200)))"
    by (simp add: orientation_primary_def Let_def normalize_primary_range)
  then have "orientation_primary (int0 (bp ((0, 0), (1, 1), 200))) \<noteq> orientation_fallback 200"
    by (simp add: orientation_fallback_def)
  then have "\<exists>r. orientation_primary (int0 (bp r)) \<noteq> orientation_fallback (snd (snd r))"
    by (intro exI [of _ "((0, 0), (1, 1), 200)"]) simp
  moreover have "orientation_primary (int0 (bp ((100, 100), (50, 100), 0))) = 90"
    if "bp ((100, 100), (50, 100), 0)
          \<in> set (cyclic_orders (axis_aligned_corners ((100, 100), (50, 100), 0)))"
    using axis_aligned_orientation(2) [of bp 100 100 50 100 0, OF that]
    by (simp add: calculate_orientation_Some py_int_def)
  ultimately show ?thesis
    by (simp add: orientation_fallback_def normalize_primary_def)
qed

theorem formulas_differ_witness:
  "orientation_primary (int0 (cv2_boxPoints ((100, 100), (50, 100), 0))) = 90 \<and>
   orientation_fallback (snd (snd ((100 :: real, 100 :: real), (50 :: real, 100 :: real), 0))) = 0"
  using formulas_differ [of cv2_boxPoints]
  by (simp add: cv2_boxPoints_axis cyclic_orders_self)

section \<open>Properties of the placement search\<close>


lemma search_offsets_find:
  "search_offsets ppt bc cp d c rs =
     (case find (\<lambda>p. 0 \<le> ppt bc p) (map (candidate_pt cp d) rs) of
        Some p \<Rightarrow> p | None \<Rightarrow> c)"
  by (induction rs) (auto simp: Let_def)

lemma calculate_sticker_position_unfold:
  "calculate_sticker_position bp ppt (Some ((cx, cy), sz, a)) off =
     (let c = (py_int cx, py_int cy);
          bc = int0 (bp ((cx, cy), sz, a));
          d = direction_of bc c
      in if linalg_norm d < 1 then Some c
         else Some (search_offsets ppt bc (real_of_int (fst c), real_of_int (snd c)) d c
                      (linspace off 0.05 30)))"
  by (simp add: calculate_sticker_position_def get_box_center_def get_box_corners_def Let_def)



text \<open>
  Claim C10. For every rectangle that is not \<^verbatim>\<open>None\<close> and every face other than
  \<^verbatim>\<open>'bottom'\<close>, \<^verbatim>\<open>'left'\<close> and \<^verbatim>\<open>'right'\<close>, \<^verbatim>\<open>calculate_sticker_position_on_face\<close>
  returns what it returns for \<^verbatim>\<open>'top'\<close>: the truncated centre moved up by
  \<^verbatim>\<open>int(max(width, height) * offset_percent)\<close> pixels.
\<close>

theorem face_default_is_top:
  "face \<noteq> ''bottom'' \<and> face \<noteq> ''left'' \<and> face \<noteq> ''right'' \<longrightarrow>
   calculate_sticker_position_on_face (Some r) face off =
     calculate_sticker_position_on_face (Some r) ''top'' off \<and>
   calculate_sticker_position_on_face (Some r) face off =
     Some (py_int (fst (fst r)),
           py_int (snd (fst r)) - py_int (max (fst (fst (snd r))) (snd (fst (snd r))) * off))"
  by (cases r) (auto simp: calculate_sticker_position_on_face_def get_box_center_def Let_def)

theorem face_default_is_top_witness:
  "''sideways'' \<noteq> ''bottom'' \<and> ''sideways'' \<noteq> ''left'' \<and> ''sideways'' \<noteq> ''right'' \<and>
   calculate_sticker_position_on_face (Some ((100, 100), (80, 40), 0)) ''sideways'' (1 / 10)
     = Some (100, 92) \<and>
   calculate_sticker_position_on_face (Some ((100, 100), (80, 40), 0)) ''top'' (1 / 10)
     = Some (100, 92)"
  using face_default_is_top [of "''sideways''" "((100, 100), (80, 40), 0)" "1 / 10"]
  by (auto simp: py_int_def)

section \<open>Properties of the rectangle extractor\<close>

lemma first_rectangular_find:
  "first_rectangular ar al ap cs =
     find (\<lambda>c. length (ap c (0.02 * al c)) = 4 \<and> 1000 < ar c) cs"
  by (induction cs) (auto simp: Let_def)

lemma py_sorted_reverse_mset: "mset (py_sorted_reverse k xs) = mset xs"
  by (simp add: py_sorted_reverse_def)

lemma py_sorted_reverse_sorted:
  "sorted_wrt (\<lambda>a b. k b \<le> k a) (py_sorted_reverse k xs)"
proof -
  have "sorted (map (\<lambda>x. - k x) (py_sorted_reverse k xs))"
    by (simp add: py_sorted_reverse_def)
  then show ?thesis
    by (simp add: sorted_wrt_map)
qed

lemma py_sorted_reverse_Nil: "(py_sorted_reverse k xs = []) = (xs = [])"
  using py_sorted_reverse_mset [of k xs] by (metis mset_zero_iff)

lemma hd_sorted_max:
  assumes "xs \<noteq> []"
  shows "hd (py_sorted_reverse k xs) \<in> set xs \<and> (\<forall>x\<in>set xs. k x \<le> k (hd (py_sorted_reverse k xs)))"
proof -
  let ?s = "py_sorted_reverse k xs"
  have ne: "?s \<noteq> []" using assms by (simp add: py_sorted_reverse_Nil)
  have st: "set ?s = set xs" using py_sorted_reverse_mset [of k xs] by (metis set_mset_mset)
  obtain y ys where s: "?s = y # ys" using ne by (cases ?s) auto
  have "sorted_wrt (\<lambda>a b. k b \<le> k a) (y # ys)"
    using py_sorted_reverse_sorted [of k xs] by (simp add: s)
  then have "\<forall>x\<in>set (y # ys). k x \<le> k y" by auto
  then have "\<forall>x\<in>set xs. k x \<le> k y" using st s by metis
  moreover have "y \<in> set xs" using st s by (metis list.set_intros(1))
  ultimately show ?thesis by (simp add: s)
qed

text \<open>
  Claim C4. With the contours of the edge map sorted by descending area (a stable sort
  of all of them), \<^verbatim>\<open>find_box_contour\<close> returns the first contour in that order whose
  approximation with tolerance 2 percent of its perimeter has exactly 4 vertices and
  whose area exceeds 1000; when no contour qualifies it returns the first contour of
  the sorted order, whose area is maximal; it returns \<^verbatim>\<open>None\<close> exactly when there is
  no contour.
\<close>

theorem find_box_contour_spec:
  "let cs = fc edges;
       srt = py_sorted_reverse ar cs;
       q = (\<lambda>c. length (ap c (0.02 * al c)) = 4 \<and> 1000 < ar c)
   in mset srt = mset cs \<and> sorted_wrt (\<lambda>a b. ar b \<le> ar a) srt \<and>
      find_box_contour fc ar al ap edges =
        (if cs = [] then None
         else case find q srt of Some c \<Rightarrow> Some c | None \<Rightarrow> Some (hd srt)) \<and>
      (find_box_contour fc ar al ap edges = None) = (cs = []) \<and>
      (cs \<noteq> [] \<longrightarrow> hd srt \<in> set cs \<and> (\<forall>c\<in>set cs. ar c \<le> ar (hd srt)))"
proof -
  have res: "find_box_contour fc ar al ap edges =
        (if fc edges = [] then None
         else case find (\<lambda>c. length (ap c (0.02 * al c)) = 4 \<and> 1000 < ar c) (py_sorted_reverse ar (fc edges)) of Some c \<Rightarrow> Some c | None \<Rightarrow> Some (hd (py_sorted_reverse ar (fc edges))))"
    by (auto simp: find_box_contour_def Let_def first_rectangular_find py_sorted_reverse_Nil hd_conv_nth split: option.splits)
  have none: "(find_box_contour fc ar al ap edges = None) = (fc edges = [])"
    unfolding res by (auto split: option.splits)
  show ?thesis
    unfolding Let_def
    using res none hd_sorted_max [of "fc edges" ar] py_sorted_reverse_mset [of ar "fc edges"] py_sorted_reverse_sorted [of ar "fc edges"]
    by blast
qed


theorem find_box_contour_spec_witness:
  "find_box_contour (\<lambda>e. e) (\<lambda>c. real (length c) * 300) (\<lambda>c. 100) (\<lambda>c eps. c)
     [[(0, 0), (9, 0), (9, 9)], [(0, 0), (50, 0), (50, 50), (0, 50)]]
   = Some [(0, 0), (50, 0), (50, 50), (0, 50)]"
  using find_box_contour_spec [of "\<lambda>e. e" "[[(0, 0), (9, 0), (9, 9)], [(0, 0), (50, 0), (50, 50), (0, 50)]]"
      "\<lambda>c. real (length c) * 300" "\<lambda>c eps. c" "\<lambda>c. 100"]
  by (simp add: Let_def py_sorted_reverse_def)


section \<open>The candidate ratios\<close>

lemma linspace_length: "length (linspace a b n) = n"
  by (simp add: linspace_def Let_def)

lemma linspace_30_nth:
  "i < 30 \<Longrightarrow> linspace a b 30 ! i = a + real i * ((b - a) / 29)"
  by (cases "i = 29") (auto simp: linspace_def Let_def nth_list_update field_simps)

lemma linspace_30_desc:
  assumes "b \<le> a"
  shows "sorted_wrt (\<lambda>x y. y \<le> x) (linspace a b 30)"
proof -
  have "linspace a b 30 ! j \<le> linspace a b 30 ! i" if "i < j" "j < 30" for i j
  proof -
    have "real i * ((b - a) / 29) \<ge> real j * ((b - a) / 29)"
      using that assms by (intro mult_right_mono_neg) (auto simp: divide_nonpos_pos)
    then show ?thesis using that by (simp add: linspace_30_nth)
  qed
  then show ?thesis
    by (simp add: sorted_wrt_iff_nth_less linspace_length)
qed

lemma linspace_30_Cons: "\<exists>rest. linspace a b 30 = a # rest"
proof -
  have "length (linspace a b 30) = 30" by (simp add: linspace_length)
  then obtain x rest where xs: "linspace a b 30 = x # rest"
    by (cases "linspace a b 30") auto
  have "linspace a b 30 ! 0 = a" by (simp add: linspace_30_nth)
  then show ?thesis by (simp add: xs)
qed

lemma placement_general:
  assumes "1 \<le> linalg_norm (direction_of (int0 (bp ((cx, cy), sz, a))) (py_int cx, py_int cy))"
  shows "calculate_sticker_position bp ppt (Some ((cx, cy), sz, a)) off =
     Some (case find (\<lambda>p. 0 \<le> ppt (int0 (bp ((cx, cy), sz, a))) p)
                 (map (candidate_pt (real_of_int (py_int cx), real_of_int (py_int cy))
                        (direction_of (int0 (bp ((cx, cy), sz, a))) (py_int cx, py_int cy)))
                    (linspace off 0.05 30)) of
             Some p \<Rightarrow> p | None \<Rightarrow> (py_int cx, py_int cy))"
  using assms by (simp add: calculate_sticker_position_unfold Let_def search_offsets_find)

lemma sqrt_3200: "sqrt 3200 = 40 * sqrt 2"
proof -
  have "sqrt 3200 = sqrt (40\<^sup>2 * 2)" by simp
  also have "\<dots> = 40 * sqrt 2" by (simp only: real_sqrt_mult real_sqrt_abs)
  finally show ?thesis .
qed

lemma square_corner_facts:
  assumes "q \<in> set (cyclic_orders (axis_aligned_corners ((100, 100), (80, 80), 0)))"
  shows "snd (top_corner_of (int0 q)) = 60 \<and>
         direction_of (int0 q) (100, 100) \<in> {(- 40, - 40), (40, - 40)}"
  using assms
  by (auto simp: cyclic_orders_def axis_aligned_corners_def int0_def top_corner_of_def
      direction_of_def as_float32_def argmin_def vsub_def Let_def)


lemma square_example:
  assumes bp: "bp ((100, 100), (80, 80), 0)
                 \<in> set (cyclic_orders (axis_aligned_corners ((100, 100), (80, 80), 0)))"
    and ppt: "\<forall>p. 60 \<le> fst p \<and> fst p \<le> 140 \<and> 60 \<le> snd p \<and> snd p \<le> 140
                \<longrightarrow> 0 \<le> ppt (int0 (bp ((100, 100), (80, 80), 0))) p"
  shows "snd (top_corner_of (int0 (bp ((100, 100), (80, 80), 0)))) = 60 \<and>
     linalg_norm (direction_of (int0 (bp ((100, 100), (80, 80), 0))) (100, 100)) = 40 * sqrt 2 \<and>
     calculate_sticker_position bp ppt (Some ((100, 100), (80, 80), 0)) (1 / 10) =
       Some (candidate_pt (100, 100)
               (direction_of (int0 (bp ((100, 100), (80, 80), 0))) (100, 100)) (1 / 10)) \<and>
     candidate_pt (100, 100) (direction_of (int0 (bp ((100, 100), (80, 80), 0))) (100, 100)) (1 / 10)
       \<in> {(96, 96), (104, 96)} \<and>
     0 \<le> ppt (int0 (bp ((100, 100), (80, 80), 0)))
           (candidate_pt (100, 100)
              (direction_of (int0 (bp ((100, 100), (80, 80), 0))) (100, 100)) (1 / 10))"
proof -
  let ?r = "((100, 100), (80, 80), 0) :: RotatedRect"
  let ?bc = "int0 (bp ?r)"
  let ?d = "direction_of ?bc (100, 100)"
  let ?c = "candidate_pt (100, 100) ?d (1 / 10)"
  from square_corner_facts [OF bp]
  have top: "snd (top_corner_of ?bc) = 60" and d: "?d \<in> {(- 40, - 40), (40, - 40)}"
    by auto
  have len: "linalg_norm ?d = 40 * sqrt 2"
    using d sqrt_3200 by (auto simp: linalg_norm_def)
  have c: "?c \<in> {(96, 96), (104, 96)}"
    using d by (auto simp: candidate_pt_def vscale_def vadd_def Let_def)
  then have inside: "0 \<le> ppt ?bc ?c"
    using ppt by auto
  obtain rest where ls: "linspace (1 / 10) (1 / 20) 30 = (1 / 10) # rest"
    using linspace_30_Cons by blast
  have "1 \<le> sqrt 2" by simp
  then have "1 \<le> linalg_norm ?d"
    unfolding len by linarith
  then have "calculate_sticker_position bp ppt (Some ?r) (1 / 10) = Some ?c"
    using inside by (simp add: calculate_sticker_position_unfold Let_def ls)
  then show ?thesis
    using top len c inside by simp
qed


lemma linspace_30_last: "linspace a b 30 ! 29 = b"
  by (simp add: linspace_def Let_def)

lemma linspace_30_first: "linspace a b 30 ! 0 = a"
  by (simp add: linspace_30_nth)

text \<open>
  What the search does for every offset. It runs through exactly 30 ratios, linearly
  spaced from \<open>offset_percent\<close> to \<open>0.05\<close> (both included); they descend when
  \<open>offset_percent \<ge> 0.05\<close>. For a rectangle whose centre-to-anchor distance is at
  least 1, the result is the first candidate, in the order of the ratios, whose signed
  point-in-polygon test is non-negative (the centre when there is none); a candidate is
  the centre plus the direction vector (not normalised) times the ratio, as a pixel.
  For the square box centred at (100, 100) of size 80 by 80 with raw angle 0 and offset
  0.1 (corners reported in any cyclic order, test non-negative on the box), the anchor
  corner has ordinate 60, the direction has length \<open>40 * sqrt 2\<close>, and the result is the
  centre plus the direction times 0.1, which tests non-negative.
\<close>

theorem placement_search:
  "(let ratios = linspace off 0.05 30
    in length ratios = 30 \<and>
       (\<forall>i<30. ratios ! i = off + real i * ((0.05 - off) / 29)) \<and>
       ratios ! 0 = off \<and> ratios ! 29 = 0.05 \<and>
       (0.05 \<le> off \<longrightarrow> sorted_wrt (\<lambda>x y. y \<le> x) ratios)) \<and>
   (1 \<le> linalg_norm (direction_of (int0 (bp ((cx, cy), sz, a))) (py_int cx, py_int cy)) \<longrightarrow>
      calculate_sticker_position bp ppt (Some ((cx, cy), sz, a)) off =
        Some (case find (\<lambda>p. 0 \<le> ppt (int0 (bp ((cx, cy), sz, a))) p)
                    (map (candidate_pt (real_of_int (py_int cx), real_of_int (py_int cy))
                           (direction_of (int0 (bp ((cx, cy), sz, a))) (py_int cx, py_int cy)))
                       (linspace off 0.05 30)) of
                Some p \<Rightarrow> p | None \<Rightarrow> (py_int cx, py_int cy))) \<and>
   (bp ((100, 100), (80, 80), 0)
      \<in> set (cyclic_orders (axis_aligned_corners ((100, 100), (80, 80), 0))) \<and>
    (\<forall>p. 60 \<le> fst p \<and> fst p \<le> 140 \<and> 60 \<le> snd p \<and> snd p \<le> 140
          \<longrightarrow> 0 \<le> ppt (int0 (bp ((100, 100), (80, 80), 0))) p) \<longrightarrow>
    snd (top_corner_of (int0 (bp ((100, 100), (80, 80), 0)))) = 60 \<and>
    linalg_norm (direction_of (int0 (bp ((100, 100), (80, 80), 0))) (100, 100)) = 40 * sqrt 2 \<and>
    calculate_sticker_position bp ppt (Some ((100, 100), (80, 80), 0)) (1 / 10) =
      Some (candidate_pt (100, 100)
              (direction_of (int0 (bp ((100, 100), (80, 80), 0))) (100, 100)) (1 / 10)) \<and>
    candidate_pt (100, 100) (direction_of (int0 (bp ((100, 100), (80, 80), 0))) (100, 100)) (1 / 10)
      \<in> {(96, 96), (104, 96)} \<and>
    0 \<le> ppt (int0 (bp ((100, 100), (80, 80), 0)))
          (candidate_pt (100, 100)
             (direction_of (int0 (bp ((100, 100), (80, 80), 0))) (100, 100)) (1 / 10)))"
proof (intro conjI)
  show "let ratios = linspace off 0.05 30
    in length ratios = 30 \<and>
       (\<forall>i<30. ratios ! i = off + real i * ((0.05 - off) / 29)) \<and>
       ratios ! 0 = off \<and> ratios ! 29 = 0.05 \<and>
       (0.05 \<le> off \<longrightarrow> sorted_wrt (\<lambda>x y. y \<le> x) ratios)"
    unfolding Let_def
    using linspace_30_desc [of "0.05" off] linspace_30_nth [of _ off "0.05"]
      linspace_30_last [of off "0.05"] linspace_30_first [of off "0.05"]
      linspace_length [of off "0.05" 30]
    by blast
next
  show "1 \<le> linalg_norm (direction_of (int0 (bp ((cx, cy), sz, a))) (py_int cx, py_int cy)) \<longrightarrow>
      calculate_sticker_position bp ppt (Some ((cx, cy), sz, a)) off =
        Some (case find (\<lambda>p. 0 \<le> ppt (int0 (bp ((cx, cy), sz, a))) p)
                    (map (candidate_pt (real_of_int (py_int cx), real_of_int (py_int cy))
                           (direction_of (int0 (bp ((cx, cy), sz, a))) (py_int cx, py_int cy)))
                       (linspace off 0.05 30)) of
                Some p \<Rightarrow> p | None \<Rightarrow> (py_int cx, py_int cy))"
    using placement_general [of bp cx cy sz a ppt off] by blast
next
  show "bp ((100, 100), (80, 80), 0)
      \<in> set (cyclic_orders (axis_aligned_corners ((100, 100), (80, 80), 0))) \<and>
    (\<forall>p. 60 \<le> fst p \<and> fst p \<le> 140 \<and> 60 \<le> snd p \<and> snd p \<le> 140
          \<longrightarrow> 0 \<le> ppt (int0 (bp ((100, 100), (80, 80), 0))) p) \<longrightarrow>
    snd (top_corner_of (int0 (bp ((100, 100), (80, 80), 0)))) = 60 \<and>
    linalg_norm (direction_of (int0 (bp ((100, 100), (80, 80), 0))) (100, 100)) = 40 * sqrt 2 \<and>
    calculate_sticker_position bp ppt (Some ((100, 100), (80, 80), 0)) (1 / 10) =
      Some (candidate_pt (100, 100)
              (direction_of (int0 (bp ((100, 100), (80, 80), 0))) (100, 100)) (1 / 10)) \<and>
    candidate_pt (100, 100) (direction_of (int0 (bp ((100, 100), (80, 80), 0))) (100, 100)) (1 / 10)
      \<in> {(96, 96), (104, 96)} \<and>
    0 \<le> ppt (int0 (bp ((100, 100), (80, 80), 0)))
          (candidate_pt (100, 100)
             (direction_of (int0 (bp ((100, 100), (80, 80), 0))) (100, 100)) (1 / 10))"
    using square_example [of bp ppt] by blast
qed

lemma axis_aligned_test_square:
  "axis_aligned_test (int0 (cv2_boxPoints ((100, 100), (80, 80), 0))) p =
     real_of_int (min (min (fst p - 60) (140 - fst p)) (min (snd p - 60) (140 - snd p)))"
  by (simp add: axis_aligned_test_def cv2_boxPoints_def int0_def Let_def)

theorem placement_search_witness:
  "calculate_sticker_position cv2_boxPoints axis_aligned_test
     (Some ((100, 100), (80, 80), 0)) (1 / 10) = Some (96, 96) \<and>
   axis_aligned_test (int0 (cv2_boxPoints ((100, 100), (80, 80), 0))) (96, 96) = 36 \<and>
   sorted_wrt (\<lambda>x y. y \<le> x) (linspace (1 / 10) (1 / 20) 30) \<and>
   linspace (1 / 10) (1 / 20) 30 ! 29 = 1 / 20"
proof -
  let ?sq = "((100, 100), (80, 80), 0) :: RotatedRect"
  have h1: "cv2_boxPoints ?sq \<in> set (cyclic_orders (axis_aligned_corners ?sq))"
    by (simp add: cv2_boxPoints_axis cyclic_orders_self)
  have h2: "\<forall>p. 60 \<le> fst p \<and> fst p \<le> 140 \<and> 60 \<le> snd p \<and> snd p \<le> 140
          \<longrightarrow> 0 \<le> axis_aligned_test (int0 (cv2_boxPoints ?sq)) p"
    by (simp add: axis_aligned_test_square)
  have d: "direction_of (int0 (cv2_boxPoints ?sq)) (100, 100) = (- 40, - 40)"
    by (simp add: cv2_boxPoints_def int0_def top_corner_of_def direction_of_def as_float32_def
        argmin_def vsub_def Let_def)
  have c: "candidate_pt (100, 100) (- 40, - 40) (1 / 10) = (96, 96)"
    by (simp add: candidate_pt_def vscale_def vadd_def Let_def)
  from placement_search [of "1 / 10" cv2_boxPoints 100 100 "(80, 80)" 0 axis_aligned_test]
  show ?thesis
    using h1 h2 by (simp add: Let_def d c axis_aligned_test_square)
qed

lemma square_direction:
  "direction_of (int0 (cv2_boxPoints ((100, 100), (80, 80), 0))) (100, 100) = (- 40, - 40)"
  by (simp add: cv2_boxPoints_def int0_def top_corner_of_def direction_of_def as_float32_def
      argmin_def vsub_def Let_def)

text \<open>
  Claim C5. The candidate ratios are to run from \<open>offset_percent\<close> down to \<open>0.05\<close> in
  descending order, as the comment in the code says (start with the desired offset and
  reduce it if needed). At \<open>offset_percent = 0.01\<close> the code does otherwise: the 30
  ratios start at 0.01, the second is larger than the first, the last is 0.05, so the
  list is not descending; and for the square box centred at (100, 100) of size 80 by
  80 the search takes its candidates in the order of exactly that list.
\<close>

theorem ratios_ascend_below_floor:
  "linspace (1 / 100) 0.05 30 ! 0 = 1 / 100 \<and>
   linspace (1 / 100) 0.05 30 ! 1 = 33 / 2900 \<and>
   linspace (1 / 100) 0.05 30 ! 29 = 1 / 20 \<and>
   linspace (1 / 100) 0.05 30 ! 0 < linspace (1 / 100) 0.05 30 ! 1 \<and>
   \<not> sorted_wrt (\<lambda>x y. y \<le> x) (linspace (1 / 100) 0.05 30) \<and>
   calculate_sticker_position cv2_boxPoints ppt (Some ((100, 100), (80, 80), 0)) (1 / 100) =
     Some (case find (\<lambda>p. 0 \<le> ppt (int0 (cv2_boxPoints ((100, 100), (80, 80), 0))) p)
                 (map (candidate_pt (100, 100) (- 40, - 40)) (linspace (1 / 100) 0.05 30)) of
             Some p \<Rightarrow> p | None \<Rightarrow> (100, 100))"
proof -
  have n0: "linspace (1 / 100) 0.05 30 ! 0 = 1 / 100"
    by (simp add: linspace_30_first)
  have n1: "linspace (1 / 100) 0.05 30 ! 1 = 33 / 2900"
    using linspace_30_nth [of 1 "1 / 100" "0.05"] by simp
  have n29: "linspace (1 / 100) 0.05 30 ! 29 = 1 / 20"
    by (simp add: linspace_30_last)
  have "\<not> sorted_wrt (\<lambda>x y. y \<le> x) (linspace (1 / 100) 0.05 30)"
  proof
    assume "sorted_wrt (\<lambda>x y. y \<le> x) (linspace (1 / 100) 0.05 30)"
    then have "linspace (1 / 100) 0.05 30 ! 29 \<le> linspace (1 / 100) 0.05 30 ! 0"
      by (simp add: sorted_wrt_iff_nth_less linspace_length)
    then show False by (simp only: n0 n29)
  qed
  moreover have "1 \<le> linalg_norm (direction_of (int0 (cv2_boxPoints ((100, 100), (80, 80), 0)))
                      (py_int 100, py_int 100))"
    by (simp add: square_direction linalg_norm_def)
  note pg = placement_general [of cv2_boxPoints 100 100 "(80, 80)" 0 ppt "1 / 100", OF this,
      unfolded py_int_numeral of_int_numeral square_direction]
  ultimately show ?thesis
    using n0 n1 n29 pg by (simp only: simp_thms)
qed

section \<open>Properties of the compositing stage\<close>

lemma slice_bounds:
  assumes "0 \<le> a" "a \<le> b" "b \<le> int n"
  shows "slice_lo a n = nat a" "slice_hi a b n = nat b"
  using assms by (auto simp: slice_lo_def slice_hi_def)

lemma slice_lo_le: "slice_lo a n \<le> n"
  by (auto simp: slice_lo_def)

lemma slice_hi_le: "slice_hi a b n \<le> n"
  by (auto simp: slice_hi_def slice_lo_le)

lemma slice_lo_le_hi: "slice_lo a n \<le> slice_hi a b n"
  by (simp add: slice_hi_def)

lemma length_py_slice:
  "length (py_slice a b xs) = slice_hi a b (length xs) - slice_lo a (length xs)"
  using slice_hi_le [of a b "length xs"] by (simp add: py_slice_def Let_def)

lemma nth_py_slice:
  assumes "i < slice_hi a b (length xs) - slice_lo a (length xs)"
  shows "py_slice a b xs ! i = xs ! (slice_lo a (length xs) + i)"
  using assms slice_hi_le [of a b "length xs"] by (simp add: py_slice_def Let_def)

lemma wf_rasterD:
  assumes "wf_raster r"
  shows "length (rows r) = height r" "y < height r \<Longrightarrow> length (rows r ! y) = width r"
  using assms by (auto simp: wf_raster_def list_all_length)

lemma wf_rasterI:
  assumes "length (rows r) = height r" "\<And>y. y < height r \<Longrightarrow> length (rows r ! y) = width r"
  shows "wf_raster r"
  using assms by (auto simp: wf_raster_def list_all_length)

lemma slice2_shape [simp]:
  "height (slice2 r ya yb xa xb) = slice_hi ya yb (height r) - slice_lo ya (height r)"
  "width (slice2 r ya yb xa xb) = slice_hi xa xb (width r) - slice_lo xa (width r)"
  by (simp_all add: slice2_def)

lemma slice2_rows:
  assumes wf: "wf_raster r"
  shows "length (rows (slice2 r ya yb xa xb)) = height (slice2 r ya yb xa xb)"
    and "i < height (slice2 r ya yb xa xb) \<Longrightarrow>
           length (rows (slice2 r ya yb xa xb) ! i) = width (slice2 r ya yb xa xb)"
    and "i < height (slice2 r ya yb xa xb) \<Longrightarrow> j < width (slice2 r ya yb xa xb) \<Longrightarrow>
           rows (slice2 r ya yb xa xb) ! i ! j =
             rows r ! (slice_lo ya (height r) + i) ! (slice_lo xa (width r) + j)"
proof -
  have len: "length (rows r) = height r" using wf by (rule wf_rasterD)
  show "length (rows (slice2 r ya yb xa xb)) = height (slice2 r ya yb xa xb)"
    by (simp add: slice2_def length_py_slice len)
  {
    assume i: "i < height (slice2 r ya yb xa xb)"
    then have i': "i < slice_hi ya yb (length (rows r)) - slice_lo ya (length (rows r))"
      by (simp add: len)
    have "slice_lo ya (height r) + i < height r"
      using i slice_hi_le [of ya yb "height r"] by simp
    then have w: "length (rows r ! (slice_lo ya (height r) + i)) = width r"
      using wf by (rule wf_rasterD(2) [rotated])
    have row: "rows (slice2 r ya yb xa xb) ! i =
        py_slice xa xb (rows r ! (slice_lo ya (height r) + i))"
      using i' by (simp add: slice2_def length_py_slice nth_py_slice len)
    show "length (rows (slice2 r ya yb xa xb) ! i) = width (slice2 r ya yb xa xb)"
      by (simp add: row length_py_slice w)
    show "rows (slice2 r ya yb xa xb) ! i ! j =
             rows r ! (slice_lo ya (height r) + i) ! (slice_lo xa (width r) + j)"
      if "j < width (slice2 r ya yb xa xb)"
      using that by (simp add: row nth_py_slice w)
  }
qed

lemma wf_slice2:
  assumes "wf_raster r"
  shows "wf_raster (slice2 r ya yb xa xb)"
proof (rule wf_rasterI)
  show "length (rows (slice2 r ya yb xa xb)) = height (slice2 r ya yb xa xb)"
    using assms by (rule slice2_rows(1))
  show "length (rows (slice2 r ya yb xa xb) ! y) = width (slice2 r ya yb xa xb)"
    if "y < height (slice2 r ya yb xa xb)" for y
    using assms that by (rule slice2_rows(2))
qed


lemma alpha_blend_rows:
  assumes "wf_raster roi" "wf_raster st" "height roi = height st" "width roi = width st"
  shows "\<exists>out. alpha_blend roi st = Inr out \<and> height out = height roi \<and> width out = width roi \<and>
           wf_raster out \<and>
           (\<forall>i j. i < height roi \<and> j < width roi \<longrightarrow>
              rows out ! i ! j = blend_pixel (rows roi ! i ! j) (rows st ! i ! j))"
proof -
  let ?out = "\<lparr>height = height roi, width = width roi,
             rows = map2 (map2 blend_pixel) (rows roi) (rows st)\<rparr>"
  have l1: "length (rows roi) = height roi" and l2: "length (rows st) = height roi"
    using assms wf_rasterD(1) by metis+
  have r1: "length (rows roi ! i) = width roi" and r2: "length (rows st ! i) = width roi"
    if "i < height roi" for i
    using assms that wf_rasterD(2) by metis+
  have "alpha_blend roi st = Inr ?out"
    using assms by (simp add: alpha_blend_def)
  moreover have "wf_raster ?out"
    by (rule wf_rasterI) (simp_all add: l1 l2 r1 r2)
  moreover have "rows ?out ! i ! j = blend_pixel (rows roi ! i ! j) (rows st ! i ! j)"
    if "i < height roi" "j < width roi" for i j
    using that by (simp add: l1 l2 r1 r2)
  ultimately show ?thesis by auto
qed

lemma assign2_rows:
  assumes wf: "wf_raster img"
    and shape: "height roi = slice_hi ya yb (height img) - slice_lo ya (height img)"
               "width roi = slice_hi xa xb (width img) - slice_lo xa (width img)"
  shows "\<exists>out. assign2 img ya yb xa xb roi = Inr out \<and> out = img\<lparr>rows := rows out\<rparr> \<and>
           wf_raster out \<and>
           (\<forall>y x. y < height img \<and> x < width img \<longrightarrow>
              rows out ! y ! x =
                (if slice_lo ya (height img) \<le> y \<and> y < slice_hi ya yb (height img) \<and>
                    slice_lo xa (width img) \<le> x \<and> x < slice_hi xa xb (width img)
                 then rows roi ! (y - slice_lo ya (height img)) ! (x - slice_lo xa (width img))
                 else rows img ! y ! x))"
proof -
  define ylo yhi xlo xhi where "ylo = slice_lo ya (height img)" and "yhi = slice_hi ya yb (height img)"
    and "xlo = slice_lo xa (width img)" and "xhi = slice_hi xa xb (width img)"
  define new where "new = map (\<lambda>y. if ylo \<le> y \<and> y < yhi then
                        map (\<lambda>x. if xlo \<le> x \<and> x < xhi
                                  then rows roi ! (y - ylo) ! (x - xlo)
                                  else rows img ! y ! x)
                          [0..<length (rows img ! y)]
                      else rows img ! y)
               [0..<length (rows img)]"
  have len: "length (rows img) = height img" using wf by (rule wf_rasterD)
  have w: "length (rows img ! y) = width img" if "y < height img" for y
    using wf that by (rule wf_rasterD)
  have res: "assign2 img ya yb xa xb roi = Inr (img\<lparr>rows := new\<rparr>)"
    using shape by (simp add: assign2_def Let_def new_def ylo_def yhi_def xlo_def xhi_def)
  have wfn: "wf_raster (img\<lparr>rows := new\<rparr>)"
    by (rule wf_rasterI) (auto simp: new_def len w)
  have px: "new ! y ! x = (if ylo \<le> y \<and> y < yhi \<and> xlo \<le> x \<and> x < xhi
                 then rows roi ! (y - ylo) ! (x - xlo) else rows img ! y ! x)"
    if "y < height img" "x < width img" for y x
    using that by (simp add: new_def len w)
  show ?thesis
    using res wfn px unfolding ylo_def yhi_def xlo_def xhi_def by auto
qed


lemma clip_1d:
  fixes x1 :: int and sw W :: nat
  assumes "\<not> x1 + int sw < 0" "\<not> int W \<le> x1"
  shows "slice_lo (max 0 x1) W = nat (max 0 x1)"
    and "slice_hi (max 0 x1) (min (int W) (x1 + int sw)) W = nat (min (int W) (x1 + int sw))"
    and "slice_lo (max 0 (- x1)) sw = nat (max 0 (- x1))"
    and "slice_hi (max 0 (- x1)) (max 0 (- x1) + (min (int W) (x1 + int sw) - max 0 x1)) sw
           = nat (max 0 (- x1) + (min (int W) (x1 + int sw) - max 0 x1))"
    and "nat (max 0 (- x1) + (min (int W) (x1 + int sw) - max 0 x1)) - nat (max 0 (- x1))
           = nat (min (int W) (x1 + int sw)) - nat (max 0 x1)"
    and "nat (max 0 x1) \<le> x \<Longrightarrow> nat (max 0 (- x1)) + (x - nat (max 0 x1)) = nat (int x - x1)"
    and "(nat (max 0 x1) \<le> x \<and> x < nat (min (int W) (x1 + int sw)))
           = (x < W \<and> x1 \<le> int x \<and> int x < x1 + int sw)"
proof -
  show "slice_lo (max 0 x1) W = nat (max 0 x1)"
    using assms by (intro slice_bounds(1) [of _ "min (int W) (x1 + int sw)"]) auto
  show "slice_hi (max 0 x1) (min (int W) (x1 + int sw)) W = nat (min (int W) (x1 + int sw))"
    using assms by (intro slice_bounds(2)) auto
  show "slice_lo (max 0 (- x1)) sw = nat (max 0 (- x1))"
    using assms
    by (intro slice_bounds(1) [of _ "max 0 (- x1) + (min (int W) (x1 + int sw) - max 0 x1)"]) auto
  show "slice_hi (max 0 (- x1)) (max 0 (- x1) + (min (int W) (x1 + int sw) - max 0 x1)) sw
           = nat (max 0 (- x1) + (min (int W) (x1 + int sw) - max 0 x1))"
    using assms by (intro slice_bounds(2)) auto
  show "nat (max 0 (- x1) + (min (int W) (x1 + int sw) - max 0 x1)) - nat (max 0 (- x1))
           = nat (min (int W) (x1 + int sw)) - nat (max 0 x1)"
    using assms by (auto simp: max_def min_def)
  show "nat (max 0 x1) \<le> x \<Longrightarrow> nat (max 0 (- x1)) + (x - nat (max 0 x1)) = nat (int x - x1)"
    using assms by (auto simp: max_def min_def)
  show "(nat (max 0 x1) \<le> x \<and> x < nat (min (int W) (x1 + int sw)))
           = (x < W \<and> x1 \<le> int x \<and> int x < x1 + int sw)"
    using assms by (auto simp: max_def min_def)
qed


lemma roi_pixels:
  fixes img :: "'p raster" and s :: "'q raster"
  assumes wf: "wf_raster img" "wf_raster s"
    and nx: "\<not> x1 + int (width s) < 0" "\<not> int (width img) \<le> x1"
    and ny: "\<not> y1 + int (height s) < 0" "\<not> int (height img) \<le> y1"
  defines "rx1 \<equiv> max 0 x1" and "ry1 \<equiv> max 0 y1"
    and "rx2 \<equiv> min (int (width img)) (x1 + int (width s))"
    and "ry2 \<equiv> min (int (height img)) (y1 + int (height s))"
  defines "roi \<equiv> slice2 img ry1 ry2 rx1 rx2"
    and "st \<equiv> slice2 s (max 0 (- y1)) (max 0 (- y1) + (ry2 - ry1))
                       (max 0 (- x1)) (max 0 (- x1) + (rx2 - rx1))"
  shows "wf_raster roi" "wf_raster st"
    and "height roi = nat ry2 - nat ry1" "width roi = nat rx2 - nat rx1"
    and "height st = nat ry2 - nat ry1" "width st = nat rx2 - nat rx1"
    and "slice_lo ry1 (height img) = nat ry1" "slice_hi ry1 ry2 (height img) = nat ry2"
    and "slice_lo rx1 (width img) = nat rx1" "slice_hi rx1 rx2 (width img) = nat rx2"
    and "nat ry1 \<le> y \<and> y < nat ry2 \<and> nat rx1 \<le> x \<and> x < nat rx2 \<Longrightarrow>
           rows roi ! (y - nat ry1) ! (x - nat rx1) = rows img ! y ! x \<and>
           rows st ! (y - nat ry1) ! (x - nat rx1) = rows s ! nat (int y - y1) ! nat (int x - x1)"
    and "(nat ry1 \<le> y \<and> y < nat ry2 \<and> nat rx1 \<le> x \<and> x < nat rx2) =
           (y < height img \<and> x < width img \<and>
            x1 \<le> int x \<and> int x < x1 + int (width s) \<and> y1 \<le> int y \<and> int y < y1 + int (height s))"
proof -
  note cx = clip_1d [OF nx, folded rx1_def rx2_def]
  note cy = clip_1d [OF ny, folded ry1_def ry2_def]
  show wr: "wf_raster roi" and ws: "wf_raster st"
    unfolding roi_def st_def by (simp_all add: wf wf_slice2)
  show hr: "height roi = nat ry2 - nat ry1" and wdr: "width roi = nat rx2 - nat rx1"
    by (simp_all add: roi_def cx(1,2) cy(1,2))
  show hs: "height st = nat ry2 - nat ry1" and wds: "width st = nat rx2 - nat rx1"
    by (simp_all add: st_def cx(3,4,5) cy(3,4,5))
  show "slice_lo ry1 (height img) = nat ry1" "slice_hi ry1 ry2 (height img) = nat ry2"
    "slice_lo rx1 (width img) = nat rx1" "slice_hi rx1 rx2 (width img) = nat rx2"
    by (rule cy(1) cy(2) cx(1) cx(2))+
  show "(nat ry1 \<le> y \<and> y < nat ry2 \<and> nat rx1 \<le> x \<and> x < nat rx2) =
           (y < height img \<and> x < width img \<and>
            x1 \<le> int x \<and> int x < x1 + int (width s) \<and> y1 \<le> int y \<and> int y < y1 + int (height s))"
    using cx(7) [of x] cy(7) [of y] by blast
  show "rows roi ! (y - nat ry1) ! (x - nat rx1) = rows img ! y ! x \<and>
           rows st ! (y - nat ry1) ! (x - nat rx1) = rows s ! nat (int y - y1) ! nat (int x - x1)"
    if in_roi: "nat ry1 \<le> y \<and> y < nat ry2 \<and> nat rx1 \<le> x \<and> x < nat rx2"
  proof -
    have i: "y - nat ry1 < height roi" and j: "x - nat rx1 < width roi"
      using in_roi by (simp_all add: hr wdr) linarith+
    have i': "y - nat ry1 < height st" and j': "x - nat rx1 < width st"
      using i j by (simp_all add: hr wdr hs wds)
    have "rows roi ! (y - nat ry1) ! (x - nat rx1) =
        rows img ! (slice_lo ry1 (height img) + (y - nat ry1)) ! (slice_lo rx1 (width img) + (x - nat rx1))"
      unfolding roi_def using wf(1) i j [unfolded roi_def] unfolding roi_def by (rule slice2_rows(3))
    then have a: "rows roi ! (y - nat ry1) ! (x - nat rx1) = rows img ! y ! x"
      using in_roi by (simp add: cx(1) cy(1))
    have "rows st ! (y - nat ry1) ! (x - nat rx1) =
        rows s ! (slice_lo (max 0 (- y1)) (height s) + (y - nat ry1))
               ! (slice_lo (max 0 (- x1)) (width s) + (x - nat rx1))"
      unfolding st_def using wf(2) i' j' [unfolded st_def] unfolding st_def by (rule slice2_rows(3))
    then have b: "rows st ! (y - nat ry1) ! (x - nat rx1) = rows s ! nat (int y - y1) ! nat (int x - x1)"
      using in_roi cx(6) [of x] cy(6) [of y] by (simp add: cx(3) cy(3))
    show ?thesis using a b by simp
  qed
qed


lemma overlay_Bgra_pixels:
  fixes sx sy :: int
  assumes wf: "wf_raster img" "wf_raster s"
  defines "x1 \<equiv> sx - int (width s) div 2" and "y1 \<equiv> sy - int (height s) div 2"
  shows "\<exists>out. overlay_sticker_image img (Bgra s) (Some (sx, sy)) = Inr out \<and>
           out = img\<lparr>rows := rows out\<rparr> \<and> wf_raster out \<and>
           (\<forall>y x. y < height img \<and> x < width img \<longrightarrow>
              rows out ! y ! x =
                (if x1 \<le> int x \<and> int x < x1 + int (width s) \<and>
                    y1 \<le> int y \<and> int y < y1 + int (height s)
                 then blend_pixel (rows img ! y ! x) (rows s ! nat (int y - y1) ! nat (int x - x1))
                 else rows img ! y ! x))"
proof (cases "x1 + int (width s) < 0 \<or> y1 + int (height s) < 0 \<or>
              int (width img) \<le> x1 \<or> int (height img) \<le> y1")
  case True
  then have "overlay_sticker_image img (Bgra s) (Some (sx, sy)) = Inr img"
    by (simp add: overlay_sticker_image_def Let_def x1_def y1_def)
  moreover have "\<not> (x1 \<le> int x \<and> int x < x1 + int (width s) \<and>
                    y1 \<le> int y \<and> int y < y1 + int (height s))"
    if "y < height img" "x < width img" for y x
    using True that by linarith
  ultimately show ?thesis
    using wf(1) by simp blast
next
  case False
  then have nx: "\<not> x1 + int (width s) < 0" "\<not> int (width img) \<le> x1"
    and ny: "\<not> y1 + int (height s) < 0" "\<not> int (height img) \<le> y1"
    by auto
  define rx1 ry1 rx2 ry2 where "rx1 = max 0 x1" and "ry1 = max 0 y1"
    and "rx2 = min (int (width img)) (x1 + int (width s))"
    and "ry2 = min (int (height img)) (y1 + int (height s))"
  define roi where "roi = slice2 img ry1 ry2 rx1 rx2"
  define st where "st = slice2 s (max 0 (- y1)) (max 0 (- y1) + (ry2 - ry1))
                       (max 0 (- x1)) (max 0 (- x1) + (rx2 - rx1))"
  note g = roi_pixels [OF wf nx ny, folded rx1_def ry1_def rx2_def ry2_def,
      folded roi_def st_def]
  from alpha_blend_rows [OF g(1) g(2)] g(3,4,5,6)
  obtain b where b: "alpha_blend roi st = Inr b" and bh: "height b = height roi"
    and bw: "width b = width roi"
    and bpx: "\<And>i j. i < height roi \<Longrightarrow> j < width roi \<Longrightarrow>
                 rows b ! i ! j = blend_pixel (rows roi ! i ! j) (rows st ! i ! j)"
    by auto
  have shape: "height b = slice_hi ry1 ry2 (height img) - slice_lo ry1 (height img)"
    "width b = slice_hi rx1 rx2 (width img) - slice_lo rx1 (width img)"
    using bh bw by (simp_all add: g(3,4,7,8,9,10))
  from assign2_rows [OF wf(1) shape]
  obtain out where out: "assign2 img ry1 ry2 rx1 rx2 b = Inr out" "out = img\<lparr>rows := rows out\<rparr>"
    "wf_raster out"
    and opx: "\<And>y x. y < height img \<Longrightarrow> x < width img \<Longrightarrow>
       rows out ! y ! x =
         (if nat ry1 \<le> y \<and> y < nat ry2 \<and> nat rx1 \<le> x \<and> x < nat rx2
          then rows b ! (y - nat ry1) ! (x - nat rx1) else rows img ! y ! x)"
    unfolding g(7,8,9,10) by blast
  have res: "overlay_sticker_image img (Bgra s) (Some (sx, sy)) = Inr out"
    using False
    by (simp add: overlay_sticker_image_def Let_def x1_def [symmetric] y1_def [symmetric]
        rx1_def [symmetric] ry1_def [symmetric] rx2_def [symmetric] ry2_def [symmetric]
        roi_def [symmetric] st_def [symmetric] b out(1))
  have "rows out ! y ! x =
      (if x1 \<le> int x \<and> int x < x1 + int (width s) \<and> y1 \<le> int y \<and> int y < y1 + int (height s)
       then blend_pixel (rows img ! y ! x) (rows s ! nat (int y - y1) ! nat (int x - x1))
       else rows img ! y ! x)"
    if yx: "y < height img" "x < width img" for y x
  proof (cases "nat ry1 \<le> y \<and> y < nat ry2 \<and> nat rx1 \<le> x \<and> x < nat rx2")
    case True
    then have i: "y - nat ry1 < height roi" and j: "x - nat rx1 < width roi"
      by (simp_all add: g(3,4)) linarith+
    show ?thesis
      using True g(11) [OF True] g(12) [of y x] bpx [OF i j] opx [OF yx] yx by simp
  next
    case False
    then have "\<not> (x1 \<le> int x \<and> int x < x1 + int (width s) \<and>
                y1 \<le> int y \<and> int y < y1 + int (height s))"
      using g(12) [of y x] yx by blast
    then show ?thesis
      using opx [OF yx] False by (simp only: if_False)
  qed
  then show ?thesis
    using res out(2,3) by blast
qed

lemma overlay_Bgr_pixels:
  fixes sx sy :: int
  assumes wf: "wf_raster img" "wf_raster s"
  defines "x1 \<equiv> sx - int (width s) div 2" and "y1 \<equiv> sy - int (height s) div 2"
  shows "\<exists>out. overlay_sticker_image img (Bgr s) (Some (sx, sy)) = Inr out \<and>
           out = img\<lparr>rows := rows out\<rparr> \<and> wf_raster out \<and>
           (\<forall>y x. y < height img \<and> x < width img \<longrightarrow>
              rows out ! y ! x =
                (if x1 \<le> int x \<and> int x < x1 + int (width s) \<and>
                    y1 \<le> int y \<and> int y < y1 + int (height s)
                 then rows s ! nat (int y - y1) ! nat (int x - x1)
                 else rows img ! y ! x))"
proof (cases "x1 + int (width s) < 0 \<or> y1 + int (height s) < 0 \<or>
              int (width img) \<le> x1 \<or> int (height img) \<le> y1")
  case True
  then have "overlay_sticker_image img (Bgr s) (Some (sx, sy)) = Inr img"
    by (simp add: overlay_sticker_image_def Let_def x1_def y1_def)
  moreover have "\<not> (x1 \<le> int x \<and> int x < x1 + int (width s) \<and>
                    y1 \<le> int y \<and> int y < y1 + int (height s))"
    if "y < height img" "x < width img" for y x
    using True that by linarith
  ultimately show ?thesis
    using wf(1) by simp blast
next
  case False
  then have nx: "\<not> x1 + int (width s) < 0" "\<not> int (width img) \<le> x1"
    and ny: "\<not> y1 + int (height s) < 0" "\<not> int (height img) \<le> y1"
    by auto
  define rx1 ry1 rx2 ry2 where "rx1 = max 0 x1" and "ry1 = max 0 y1"
    and "rx2 = min (int (width img)) (x1 + int (width s))"
    and "ry2 = min (int (height img)) (y1 + int (height s))"
  define roi where "roi = slice2 img ry1 ry2 rx1 rx2"
  define st where "st = slice2 s (max 0 (- y1)) (max 0 (- y1) + (ry2 - ry1))
                       (max 0 (- x1)) (max 0 (- x1) + (rx2 - rx1))"
  note g = roi_pixels [OF wf nx ny, folded rx1_def ry1_def rx2_def ry2_def,
      folded roi_def st_def]
  define b where "b = st"
  have b: "st = b" by (simp add: b_def)
  have bh: "height b = height roi" and bw: "width b = width roi"
    by (simp_all add: b_def g(3,4,5,6))
  have bpx: "\<And>i j. i < height roi \<Longrightarrow> j < width roi \<Longrightarrow> rows b ! i ! j = rows st ! i ! j"
    by (simp add: b_def)
  have shape: "height b = slice_hi ry1 ry2 (height img) - slice_lo ry1 (height img)"
    "width b = slice_hi rx1 rx2 (width img) - slice_lo rx1 (width img)"
    using bh bw by (simp_all add: g(3,4,7,8,9,10))
  from assign2_rows [OF wf(1) shape]
  obtain out where out: "assign2 img ry1 ry2 rx1 rx2 b = Inr out" "out = img\<lparr>rows := rows out\<rparr>"
    "wf_raster out"
    and opx: "\<And>y x. y < height img \<Longrightarrow> x < width img \<Longrightarrow>
       rows out ! y ! x =
         (if nat ry1 \<le> y \<and> y < nat ry2 \<and> nat rx1 \<le> x \<and> x < nat rx2
          then rows b ! (y - nat ry1) ! (x - nat rx1) else rows img ! y ! x)"
    unfolding g(7,8,9,10) by blast
  have res: "overlay_sticker_image img (Bgr s) (Some (sx, sy)) = Inr out"
    using False
    by (simp add: overlay_sticker_image_def Let_def x1_def [symmetric] y1_def [symmetric]
        rx1_def [symmetric] ry1_def [symmetric] rx2_def [symmetric] ry2_def [symmetric]
        roi_def [symmetric] st_def [symmetric] b out(1))
  have "rows out ! y ! x =
      (if x1 \<le> int x \<and> int x < x1 + int (width s) \<and> y1 \<le> int y \<and> int y < y1 + int (height s)
       then rows s ! nat (int y - y1) ! nat (int x - x1)
       else rows img ! y ! x)"
    if yx: "y < height img" "x < width img" for y x
  proof (cases "nat ry1 \<le> y \<and> y < nat ry2 \<and> nat rx1 \<le> x \<and> x < nat rx2")
    case True
    then have i: "y - nat ry1 < height roi" and j: "x - nat rx1 < width roi"
      by (simp_all add: g(3,4)) linarith+
    show ?thesis
      using True g(11) [OF True] g(12) [of y x] bpx [OF i j] opx [OF yx] yx by simp
  next
    case False
    then have "\<not> (x1 \<le> int x \<and> int x < x1 + int (width s) \<and>
                y1 \<le> int y \<and> int y < y1 + int (height s))"
      using g(12) [of y x] yx by blast
    then show ?thesis
      using opx [OF yx] False by (simp only: if_False)
  qed
  then show ?thesis
    using res out(2,3) by blast
qed

lemma py_int_of_nat: "py_int (real n) = int n"
  by (simp only: py_int_def of_nat_0_le_iff if_True floor_of_nat)

lemma to_uint8_as_float [simp]: "to_uint8 (as_float b) = b"
  unfolding to_uint8_def as_float_def py_int_of_nat by simp

lemma as_float_consts [simp]: "as_float 255 = 255" "as_float 0 = 0"
  by (simp_all add: as_float_def)

lemma blend_pixel_opaque: "alpha_of fg = 255 \<Longrightarrow> blend_pixel bg fg = rgb_of fg"
  by (cases bg; cases fg) (simp add: blend_pixel_def alpha_of_def rgb_of_def Let_def)

lemma blend_pixel_transparent: "alpha_of fg = 0 \<Longrightarrow> blend_pixel bg fg = bg"
  by (cases bg; cases fg) (simp add: blend_pixel_def alpha_of_def Let_def)

lemma uniform_alphaD:
  assumes "uniform_alpha a s" "wf_raster s" "i < height s" "j < width s"
  shows "alpha_of (rows s ! i ! j) = a"
  using assms wf_rasterD [OF assms(2)]
  by (simp add: uniform_alpha_def list_all_length)

lemma covers_Bgra:
  "covers (Bgra s) (sx, sy) x y =
     (sx - int (width s) div 2 \<le> int x \<and> int x < sx - int (width s) div 2 + int (width s) \<and>
      sy - int (height s) div 2 \<le> int y \<and> int y < sy - int (height s) div 2 + int (height s))"
  by (simp add: covers_def placement_rect_def Let_def)

lemma covers_Bgr:
  "covers (Bgr s) (sx, sy) x y =
     (sx - int (width s) div 2 \<le> int x \<and> int x < sx - int (width s) div 2 + int (width s) \<and>
      sy - int (height s) div 2 \<le> int y \<and> int y < sy - int (height s) div 2 + int (height s))"
  by (simp add: covers_def placement_rect_def Let_def)

lemma raster_unchanged:
  assumes "out = img\<lparr>rows := rows out\<rparr>" "wf_raster out" "wf_raster img"
    and "\<And>y x. y < height img \<Longrightarrow> x < width img \<Longrightarrow> rows out ! y ! x = rows img ! y ! x"
  shows "out = img"
proof -
  have h: "height out = height img" and w: "width out = width img"
    using assms(1) by (metis raster.select_convs(1) raster.surjective raster.update_convs(3),
        metis raster.select_convs(2) raster.surjective raster.update_convs(3))
  have "rows out = rows img"
  proof (rule nth_equalityI)
    show "length (rows out) = length (rows img)"
      using wf_rasterD(1) [OF assms(2)] wf_rasterD(1) [OF assms(3)] h by simp
    fix y assume "y < length (rows out)"
    then have y: "y < height img" using wf_rasterD(1) [OF assms(2)] h by simp
    show "rows out ! y = rows img ! y"
    proof (rule nth_equalityI)
      show "length (rows out ! y) = length (rows img ! y)"
        using wf_rasterD(2) [OF assms(2), of y] wf_rasterD(2) [OF assms(3), of y] y h w by simp
      fix x assume "x < length (rows out ! y)"
      then have "x < width img"
        using wf_rasterD(2) [OF assms(2), of y] y h w by simp
      then show "rows out ! y ! x = rows img ! y ! x"
        using y by (rule assms(4) [rotated])
    qed
  qed
  then show ?thesis using assms(1) by simp
qed


lemma overlay_Bgra_covers:
  assumes wf: "wf_raster img" "wf_raster s"
  shows "\<exists>out. overlay_sticker_image img (Bgra s) (Some (sx, sy)) = Inr out \<and>
           out = img\<lparr>rows := rows out\<rparr> \<and> wf_raster out \<and>
           (\<forall>y x. y < height img \<and> x < width img \<longrightarrow>
              rows out ! y ! x =
                (if covers (Bgra s) (sx, sy) x y
                 then blend_pixel (rows img ! y ! x)
                        (rows s ! nat (int y - (sy - int (height s) div 2))
                                ! nat (int x - (sx - int (width s) div 2)))
                 else rows img ! y ! x))"
  using overlay_Bgra_pixels [OF wf, of sx sy] unfolding covers_Bgra .

lemma overlay_Bgr_covers:
  assumes wf: "wf_raster img" "wf_raster s"
  shows "\<exists>out. overlay_sticker_image img (Bgr s) (Some (sx, sy)) = Inr out \<and>
           out = img\<lparr>rows := rows out\<rparr> \<and> wf_raster out \<and>
           (\<forall>y x. y < height img \<and> x < width img \<longrightarrow>
              rows out ! y ! x =
                (if covers (Bgr s) (sx, sy) x y
                 then rows s ! nat (int y - (sy - int (height s) div 2))
                             ! nat (int x - (sx - int (width s) div 2))
                 else rows img ! y ! x))"
  using overlay_Bgr_pixels [OF wf, of sx sy] unfolding covers_Bgr .

lemma covered_index:
  assumes "covers (Bgra s) (sx, sy) x y"
  shows "nat (int y - (sy - int (height s) div 2)) < height s"
    and "nat (int x - (sx - int (width s) div 2)) < width s"
  using assms by (auto simp: covers_Bgra)

text \<open>
  Claim C7. For a canvas and a decal with alpha channel, at any position: when the
  alpha channel is 255 everywhere, every canvas pixel covered by the decal becomes
  exactly the colour of the decal pixel lying on it; when the alpha channel is 0
  everywhere, the canvas is returned with every pixel unchanged.
\<close>

theorem opaque_and_transparent:
  assumes "wf_raster img" and "wf_raster s"
  shows "(uniform_alpha 255 s \<longrightarrow>
           (\<exists>out. overlay_sticker_image img (Bgra s) (Some (sx, sy)) = Inr out \<and>
              height out = height img \<and> width out = width img \<and> wf_raster out \<and>
              (\<forall>y x. y < height img \<and> x < width img \<and> covers (Bgra s) (sx, sy) x y \<longrightarrow>
                 rows out ! y ! x =
                   rgb_of (rows s ! nat (int y - (sy - int (height s) div 2))
                                  ! nat (int x - (sx - int (width s) div 2)))))) \<and>
         (uniform_alpha 0 s \<longrightarrow> overlay_sticker_image img (Bgra s) (Some (sx, sy)) = Inr img)"
proof -
  from overlay_Bgra_covers [OF assms, of sx sy]
  obtain out where res: "overlay_sticker_image img (Bgra s) (Some (sx, sy)) = Inr out"
    and upd: "out = img\<lparr>rows := rows out\<rparr>" and wfo: "wf_raster out"
    and px: "\<And>y x. y < height img \<Longrightarrow> x < width img \<Longrightarrow>
       rows out ! y ! x =
         (if covers (Bgra s) (sx, sy) x y
          then blend_pixel (rows img ! y ! x)
                 (rows s ! nat (int y - (sy - int (height s) div 2))
                         ! nat (int x - (sx - int (width s) div 2)))
          else rows img ! y ! x)"
    by blast
  have h: "height out = height img" and w: "width out = width img"
    using upd by (metis raster.select_convs(1) raster.surjective raster.update_convs(3),
        metis raster.select_convs(2) raster.surjective raster.update_convs(3))
  have opaque: "rows out ! y ! x =
      rgb_of (rows s ! nat (int y - (sy - int (height s) div 2))
                     ! nat (int x - (sx - int (width s) div 2)))"
    if "uniform_alpha 255 s" "y < height img" "x < width img" "covers (Bgra s) (sx, sy) x y" for y x
    using px [OF that(2,3)] that(4)
      uniform_alphaD [OF that(1) assms(2) covered_index [OF that(4)]]
    by (simp add: blend_pixel_opaque)
  have transparent: "out = img" if ua: "uniform_alpha 0 s"
  proof (rule raster_unchanged [OF upd wfo assms(1)])
    fix y x assume yx: "y < height img" "x < width img"
    show "rows out ! y ! x = rows img ! y ! x"
    proof (cases "covers (Bgra s) (sx, sy) x y")
      case True
      then show ?thesis
        using px [OF yx] uniform_alphaD [OF ua assms(2) covered_index [OF True]]
        by (simp add: blend_pixel_transparent)
    next
      case False
      then show ?thesis using px [OF yx] by simp
    qed
  qed
  show ?thesis
    using res h w wfo opaque transparent by auto
qed

theorem opaque_and_transparent_witness:
  "(\<exists>out. overlay_sticker_image
            \<lparr>height = 1, width = 2, rows = [[(10, 20, 30), (40, 50, 60)]]\<rparr>
            (Bgra \<lparr>height = 1, width = 1, rows = [[(1, 2, 3, 255)]]\<rparr>) (Some (0, 0)) = Inr out \<and>
          rows out ! 0 ! 0 = (1, 2, 3)) \<and>
   overlay_sticker_image
     \<lparr>height = 1, width = 2, rows = [[(10, 20, 30), (40, 50, 60)]]\<rparr>
     (Bgra \<lparr>height = 1, width = 1, rows = [[(1, 2, 3, 0)]]\<rparr>) (Some (0, 0))
   = Inr \<lparr>height = 1, width = 2, rows = [[(10, 20, 30), (40, 50, 60)]]\<rparr>"
proof -
  let ?img = "\<lparr>height = 1, width = 2, rows = [[(10, 20, 30), (40, 50, 60)]]\<rparr> :: bgr raster"
  let ?s = "\<lparr>height = 1, width = 1, rows = [[(1, 2, 3, 255)]]\<rparr> :: bgra raster"
  let ?t = "\<lparr>height = 1, width = 1, rows = [[(1, 2, 3, 0)]]\<rparr> :: bgra raster"
  have wi: "wf_raster ?img" and ws: "wf_raster ?s" and wt: "wf_raster ?t"
    by (simp_all add: wf_raster_def)
  have us: "uniform_alpha 255 ?s" and ut: "uniform_alpha 0 ?t"
    by (simp_all add: uniform_alpha_def alpha_of_def)
  have c: "covers (Bgra ?s) (0, 0) 0 0"
    by (simp add: covers_Bgra)
  from opaque_and_transparent [OF wi ws, of 0 0] us c
  have "\<exists>out. overlay_sticker_image ?img (Bgra ?s) (Some (0, 0)) = Inr out \<and>
          rows out ! 0 ! 0 = (1, 2, 3)"
    by (auto simp: rgb_of_def)
  moreover from opaque_and_transparent [OF wi wt, of 0 0] ut
  have "overlay_sticker_image ?img (Bgra ?t) (Some (0, 0)) = Inr ?img"
    by simp
  ultimately show ?thesis by simp
qed

text \<open>
  Claim C8. When the placement rectangle of the decal covers no pixel of the canvas,
  \<^verbatim>\<open>overlay_sticker_image\<close> returns the canvas unchanged, for decals with and without
  alpha channel; that includes the rectangles that end exactly at the left or upper
  border, which pass the guard of the code and are composited on an empty region.
\<close>

theorem outside_unchanged:
  assumes "wf_raster img" and "wf_decal sticker"
    and "\<forall>y x. y < height img \<and> x < width img \<longrightarrow> \<not> covers sticker (sx, sy) x y"
  shows "overlay_sticker_image img sticker (Some (sx, sy)) = Inr img"
proof (cases sticker)
  case (Bgr s)
  then have wfs: "wf_raster s" using assms(2) by (simp add: wf_decal_def)
  from overlay_Bgr_covers [OF assms(1) wfs, of sx sy]
  obtain out where res: "overlay_sticker_image img (Bgr s) (Some (sx, sy)) = Inr out"
    and upd: "out = img\<lparr>rows := rows out\<rparr>" and wfo: "wf_raster out"
    and px: "\<And>y x. y < height img \<Longrightarrow> x < width img \<Longrightarrow>
       rows out ! y ! x =
         (if covers (Bgr s) (sx, sy) x y
          then rows s ! nat (int y - (sy - int (height s) div 2))
                      ! nat (int x - (sx - int (width s) div 2))
          else rows img ! y ! x)"
    by blast
  have "out = img"
    using assms(3) px unfolding Bgr by (intro raster_unchanged [OF upd wfo assms(1)]) simp
  then show ?thesis using res Bgr by simp
next
  case (Bgra s)
  then have wfs: "wf_raster s" using assms(2) by (simp add: wf_decal_def)
  from overlay_Bgra_covers [OF assms(1) wfs, of sx sy]
  obtain out where res: "overlay_sticker_image img (Bgra s) (Some (sx, sy)) = Inr out"
    and upd: "out = img\<lparr>rows := rows out\<rparr>" and wfo: "wf_raster out"
    and px: "\<And>y x. y < height img \<Longrightarrow> x < width img \<Longrightarrow>
       rows out ! y ! x =
         (if covers (Bgra s) (sx, sy) x y
          then blend_pixel (rows img ! y ! x)
                 (rows s ! nat (int y - (sy - int (height s) div 2))
                         ! nat (int x - (sx - int (width s) div 2)))
          else rows img ! y ! x)"
    by blast
  have "out = img"
    using assms(3) px unfolding Bgra by (intro raster_unchanged [OF upd wfo assms(1)]) simp
  then show ?thesis using res Bgra by simp
qed


theorem outside_unchanged_witness:
  "overlay_sticker_image
     \<lparr>height = 1, width = 2, rows = [[(10, 20, 30), (40, 50, 60)]]\<rparr>
     (Bgra \<lparr>height = 1, width = 2, rows = [[(1, 2, 3, 255), (4, 5, 6, 255)]]\<rparr>) (Some (- 1, 0))
   = Inr \<lparr>height = 1, width = 2, rows = [[(10, 20, 30), (40, 50, 60)]]\<rparr>"
proof -
  let ?img = "\<lparr>height = 1, width = 2, rows = [[(10, 20, 30), (40, 50, 60)]]\<rparr> :: bgr raster"
  let ?s = "\<lparr>height = 1, width = 2, rows = [[(1, 2, 3, 255), (4, 5, 6, 255)]]\<rparr> :: bgra raster"
  have wi: "wf_raster ?img" and ws: "wf_decal (Bgra ?s)"
    by (simp_all add: wf_raster_def wf_decal_def)
  have out: "\<forall>y x. y < height ?img \<and> x < width ?img \<longrightarrow> \<not> covers (Bgra ?s) (- 1, 0) x y"
    by (simp add: covers_Bgra)
  show ?thesis
    using outside_unchanged [OF wi ws out] .
qed

end
